theory Spec2Isabelle
  imports Main "HOL-Library.AList"
begin

section \<open>JavaScript values at the adapter boundary\<close>

text \<open>
  Strings are sequences of code points below 256 (Latin-1). Identifiers arrive from the
  remote service as a string or as a number (\<open>id: string | number\<close>); numbers are taken to be
  integers small enough for \<open>String(n)\<close> to be their decimal rendering. An absent
  property (\<open>undefined\<close>) is \<open>None\<close>.
\<close>

datatype ident = IdNum int | IdStr string

function string_of_nat :: "nat \<Rightarrow> string" where
  "string_of_nat n =
     (if n < 10 then [char_of (48 + n)]
      else string_of_nat (n div 10) @ [char_of (48 + n mod 10)])"
  by pat_completeness auto
termination
  by (relation "measure id") auto

text \<open>\<open>String(v)\<close> for an identifier, and for a possibly absent one.\<close>

fun js_String :: "ident \<Rightarrow> string" where
  "js_String (IdStr s) = s"
| "js_String (IdNum n) = (if n < 0 then CHR ''-'' # string_of_nat (nat (- n)) else string_of_nat (nat n))"

fun truthy :: "ident \<Rightarrow> bool" where
  "truthy (IdStr s) = (s \<noteq> [])"
| "truthy (IdNum n) = (n \<noteq> 0)"

text \<open>\<open>a || b\<close> on possibly absent identifiers.\<close>

fun js_or :: "ident option \<Rightarrow> ident option \<Rightarrow> ident option" where
  "js_or None b = b"
| "js_or (Some v) b = (if truthy v then Some v else b)"

text \<open>\<open>String.prototype.toLowerCase\<close> and \<open>trim\<close>, on code points below 256.\<close>

definition toLowerCase_char :: "char \<Rightarrow> char" where
  "toLowerCase_char c =
     (let n = (of_char c :: nat)
      in if (65 \<le> n \<and> n \<le> 90) \<or> (192 \<le> n \<and> n \<le> 222 \<and> n \<noteq> 215)
         then char_of (n + 32) else c)"

definition toLowerCase :: "string \<Rightarrow> string" where
  "toLowerCase s = map toLowerCase_char s"

definition isWhiteSpace :: "char \<Rightarrow> bool" where
  "isWhiteSpace c = ((of_char c :: nat) \<in> {9, 10, 11, 12, 13, 32, 160})"

definition trim :: "string \<Rightarrow> string" where
  "trim s = rev (dropWhile isWhiteSpace (rev (dropWhile isWhiteSpace s)))"

text \<open>\<open>s.includes(p)\<close>: \<open>p\<close> occurs in \<open>s\<close> as a contiguous substring.\<close>

fun includes_str :: "string \<Rightarrow> string \<Rightarrow> bool" where
  "includes_str [] p = (p = [])"
| "includes_str (c # cs) p = (take (length p) (c # cs) = p \<or> includes_str cs p)"

section \<open>Data model (interface ClickUpTask)\<close>

text \<open>
  An assignee carries its identity in up to three places: \<open>id\<close>, \<open>user.id\<close> and
  \<open>user_id\<close>. \<open>a_user_id\<close> is \<open>assignee.user?.id\<close>: absent when \<open>user\<close> is.
\<close>

record assignee =
  a_id :: "ident option"
  a_user_id :: "ident option"
  a_user_id_flat :: "ident option"

record ref =
  ref_id :: string
  ref_name :: string

text \<open>
  The fields of a task that the modelled operations read or write. \<open>status\<close> is the label
  \<open>task.status.status\<close>; \<open>time_spent\<close> is the remote figure in milliseconds when present.
\<close>

record task =
  task_id :: string
  task_name :: string
  status :: string
  assignees :: "assignee list option"
  list_ref :: "ref option"
  space_ref :: "ref option"
  time_spent :: "nat option"
  timeTracked :: "nat option"
  isCurrentlyTracked :: "bool option"

text \<open>A task as a list page returns it: with its sub-items one level deep, when present.\<close>

datatype api_task = ApiTask (main_task: task) (subtasks: "task list option")

section \<open>The local timer registry (internalTimerStartTimes)\<close>

text \<open>
  A JavaScript \<open>Map\<close> from task identifier to start instant: an association list in
  insertion order whose keys are distinct.
\<close>

type_synonym registry = "(string \<times> nat) list"

definition timer_has :: "registry \<Rightarrow> string \<Rightarrow> bool" where
  "timer_has reg k = (map_of reg k \<noteq> None)"

definition timer_set :: "string \<Rightarrow> nat \<Rightarrow> registry \<Rightarrow> registry" where
  "timer_set k v reg = AList.update k v reg"

definition timer_delete :: "string \<Rightarrow> registry \<Rightarrow> registry" where
  "timer_delete k reg = AList.delete k reg"

definition timer_keys :: "registry \<Rightarrow> string list" where
  "timer_keys reg = map fst reg"

definition timer_size :: "registry \<Rightarrow> nat" where
  "timer_size reg = length reg"

section \<open>The two-stage filter of getInProgressTasks\<close>

text \<open>\<open>String(assignee.id || assignee.user?.id || assignee.user_id || '')\<close>\<close>

definition assigneeId_of :: "assignee \<Rightarrow> string" where
  "assigneeId_of a =
     (case js_or (js_or (js_or (a_id a) (a_user_id a)) (a_user_id_flat a)) (Some (IdStr [])) of
        Some v \<Rightarrow> js_String v
      | None \<Rightarrow> ''undefined'')"

text \<open>\<open>task.assignees?.map(...) || []\<close>\<close>

definition assigneeIds :: "task \<Rightarrow> string list" where
  "assigneeIds t = (case assignees t of None \<Rightarrow> [] | Some as \<Rightarrow> map assigneeId_of as)"

definition isAssignedToMe :: "string \<Rightarrow> task \<Rightarrow> bool" where
  "isAssignedToMe currentUserId t = list_ex (\<lambda>assigneeId. assigneeId = currentUserId) (assigneeIds t)"

text \<open>
  \<open>task.status?.status || task.status || ''\<close>: an empty label is falsy, so the status
  object itself is taken, which \<open>String\<close> renders as \<open>[object Object]\<close>.
\<close>

definition statusValue :: "task \<Rightarrow> string" where
  "statusValue t = (if status t \<noteq> [] then status t else ''[object Object]'')"

definition defaultStatuses :: "string list" where
  "defaultStatuses = [''in progress'', ''active'', ''working'', ''in-progress'']"

text \<open>\<open>config.get('inProgressStatuses', [...]).map(s => s.toLowerCase())\<close>\<close>

definition inProgressStatuses_of :: "string list option \<Rightarrow> string list" where
  "inProgressStatuses_of configured =
     map toLowerCase (case configured of None \<Rightarrow> defaultStatuses | Some ss \<Rightarrow> ss)"

definition status_matches :: "string list \<Rightarrow> task \<Rightarrow> bool" where
  "status_matches inProgressStatuses t =
     (trim (toLowerCase (statusValue t)) \<in> set inProgressStatuses)"

definition task_passes :: "string \<Rightarrow> string list \<Rightarrow> task \<Rightarrow> bool" where
  "task_passes currentUserId inProgressStatuses t =
     (if \<not> isAssignedToMe currentUserId t then False
      else status_matches inProgressStatuses t)"

definition filterTasks :: "string \<Rightarrow> string list \<Rightarrow> task list \<Rightarrow> task list" where
  "filterTasks currentUserId inProgressStatuses tasks =
     filter (task_passes currentUserId inProgressStatuses) tasks"

section \<open>Reconciliation of the registry (end of getInProgressTasks)\<close>

text \<open>
  \<open>filteredTasks.forEach\<close> of the tracked branch: every task gets its flag, and the
  tracked one gets a registry entry when it has none.
\<close>

fun mark_tracked :: "string \<Rightarrow> nat \<Rightarrow> task list \<Rightarrow> registry \<Rightarrow> task list \<times> registry" where
  "mark_tracked trackedTaskIdStr now [] reg = ([], reg)"
| "mark_tracked trackedTaskIdStr now (t # ts) reg =
     (let isTracked = (task_id t = trackedTaskIdStr);
          reg' = (if isTracked \<and> \<not> timer_has reg (task_id t)
                  then timer_set (task_id t) now reg else reg);
          (ts', reg'') = mark_tracked trackedTaskIdStr now ts reg'
      in (t\<lparr>isCurrentlyTracked := Some isTracked\<rparr> # ts', reg''))"

text \<open>A string or null is truthy when it is present and not empty.\<close>

fun present :: "string option \<Rightarrow> bool" where
  "present None = False"
| "present (Some s) = (s \<noteq> [])"

definition reconcile ::
  "string option \<Rightarrow> nat \<Rightarrow> task list \<Rightarrow> registry \<Rightarrow> task list \<times> registry" where
  "reconcile currentlyTrackedTaskId now filteredTasks reg =
     (case currentlyTrackedTaskId of
        Some trackedTaskIdStr \<Rightarrow>
          if trackedTaskIdStr \<noteq> [] then
            (let previousTrackedTasks = filter (\<lambda>k. k \<noteq> trackedTaskIdStr) (timer_keys reg);
                 reg1 = fold timer_delete previousTrackedTasks reg
             in mark_tracked trackedTaskIdStr now filteredTasks reg1)
          else (filteredTasks, if timer_size reg > 0 then [] else reg)
      | None \<Rightarrow> (filteredTasks, if timer_size reg > 0 then [] else reg))"

section \<open>The remote service, as the code sees it\<close>

text \<open>
  A rejected request is an error object. It has a \<open>response\<close> (status, \<open>data.err\<close>)
  when the remote answered outside 2xx, and none on a transport failure; an error made
  with \<open>new Error(message)\<close> has none either. All carry a \<open>message\<close>.
\<close>

datatype failure =
    Http nat "string option" string
  | Other string

fun error_message :: "failure \<Rightarrow> string" where
  "error_message (Http st err m) = m"
| "error_message (Other m) = m"

text \<open>\<open>error.response?.data?.err || error.message\<close>\<close>

fun errorMessage_of :: "failure \<Rightarrow> string" where
  "errorMessage_of (Http st err m) = (case err of None \<Rightarrow> m | Some e \<Rightarrow> if e \<noteq> [] then e else m)"
| "errorMessage_of (Other m) = m"

text \<open>The places of a time entry where the task identifier may stand.\<close>

record time_entry =
  te_task_id :: "ident option"
  te_task_id_flat :: "ident option"
  te_taskId :: "ident option"

text \<open>
  The remote service is a state machine \<open>'r\<close> with one transition per endpoint: the
  reply and the remote's next state. A list that the body may omit is an option.
\<close>

record 'r remote =
  r_user :: "'r \<Rightarrow> (failure + ident) \<times> 'r"
  r_team :: "'r \<Rightarrow> (failure + string list option) \<times> 'r"
  r_current :: "string \<Rightarrow> 'r \<Rightarrow> (failure + time_entry option) \<times> 'r"
  r_start :: "string \<Rightarrow> string \<Rightarrow> 'r \<Rightarrow> (failure + unit) \<times> 'r"
  r_stop :: "string \<Rightarrow> 'r \<Rightarrow> (failure + unit) \<times> 'r"
  r_task :: "string \<Rightarrow> 'r \<Rightarrow> (failure + task) \<times> 'r"
  r_spaces :: "string \<Rightarrow> 'r \<Rightarrow> (failure + ref list option) \<times> 'r"
  r_folders :: "string \<Rightarrow> 'r \<Rightarrow> (failure + string list option) \<times> 'r"
  r_folder_lists :: "string \<Rightarrow> 'r \<Rightarrow> (failure + string list option) \<times> 'r"
  r_space_lists :: "string \<Rightarrow> 'r \<Rightarrow> (failure + string list option) \<times> 'r"
  r_list_tasks :: "string \<Rightarrow> nat \<Rightarrow> string option \<Rightarrow> 'r \<Rightarrow> (failure + api_task list option) \<times> 'r"
  r_team_tasks :: "string \<Rightarrow> string \<Rightarrow> 'r \<Rightarrow> (failure + api_task list option) \<times> 'r"
  r_list_tasks_flat :: "bool \<Rightarrow> string \<Rightarrow> nat \<Rightarrow> string option \<Rightarrow> 'r \<Rightarrow> (failure + api_task list option) \<times> 'r"
  r_list :: "string \<Rightarrow> 'r \<Rightarrow> (failure + unit) \<times> 'r"

text \<open>
  The last three serve the debug walks only: the tasks of a team filtered by assignee
  (page 0), the tasks of a list asked for without sub-items (\<open>subtasks: false\<close>, with
  \<open>include_closed\<close> as given), and the details of a list, whose body is only logged.
\<close>

datatype request =
    GET_user
  | GET_team
  | GET_current string
  | POST_start string string
  | POST_stop string
  | GET_task string
  | GET_spaces string
  | GET_folders string
  | GET_folder_lists string
  | GET_space_lists string
  | GET_list_tasks string nat "string option"
  | GET_team_tasks string string
  | GET_list_tasks_flat bool string nat "string option"
  | GET_list string

section \<open>class ClickUpService\<close>

text \<open>
  The fields of the service object, with what it reads from its surroundings: the state
  of the remote, \<open>Date.now()\<close>, the requests issued so far, and the warnings written to
  the log (of the log lines only the warnings are kept).

  A client made by \<open>axios.create({headers: {Authorization: token, ...}})\<close> sends the
  token with every request, but keeps the headers it was given beside the group
  \<open>defaults.headers.common\<close>, not in it: \<open>defaults.headers.common['Authorization']\<close>,
  which getApiClient reads back to see whether the token has changed, is undefined on it.
\<close>

record client =
  authorization :: string
  common_Authorization :: "string option"

definition axios_create :: "string \<Rightarrow> client" where
  "axios_create token = \<lparr>authorization = token, common_Authorization = None\<rparr>"

record 'r service =
  apiClient :: "client option"
  currentUserId :: "string option"
  internalTimerStartTimes :: registry
  remote_state :: 'r
  clock :: nat
  requests :: "request list"
  warnings :: "string list"

record config =
  apiToken :: string
  env_CLICKUP_API_KEY :: "string option"
  env_CLICKUP_API_TOKEN :: "string option"
  teamId :: string
  inProgressStatuses :: "string list option"

definition issue :: "request \<Rightarrow> ('r \<Rightarrow> 'a \<times> 'r) \<Rightarrow> 'r service \<Rightarrow> 'a \<times> 'r service" where
  "issue rq f s =
     (case f (remote_state s) of
        (a, r') \<Rightarrow> (a, s\<lparr>remote_state := r', requests := requests s @ [rq]\<rparr>))"

text \<open>\<open>process.env.CLICKUP_API_KEY || process.env.CLICKUP_API_TOKEN || ''\<close>\<close>

fun or_else :: "string option \<Rightarrow> string \<Rightarrow> string" where
  "or_else None b = b"
| "or_else (Some a) b = (if a \<noteq> [] then a else b)"

definition env_token :: "config \<Rightarrow> string" where
  "env_token cfg = or_else (env_CLICKUP_API_KEY cfg) (or_else (env_CLICKUP_API_TOKEN cfg) [])"

definition getApiClient :: "config \<Rightarrow> 'r service \<Rightarrow> client option \<times> 'r service" where
  "getApiClient cfg s =
     (let token = (if apiToken cfg \<noteq> [] then apiToken cfg else env_token cfg)
      in if token = [] then (None, s)
         else if (case apiClient s of
                    None \<Rightarrow> True
                  | Some c \<Rightarrow> common_Authorization c \<noteq> Some token)
              then (Some (axios_create token),
                    s\<lparr>apiClient := Some (axios_create token), currentUserId := None\<rparr>)
              else (apiClient s, s))"

definition notConfigured :: failure where
  "notConfigured = Other ''ClickUp API token not configured. Please configure it in settings.''"

definition noTeams :: failure where
  "noTeams = Other ''No teams found in your ClickUp account''"

definition getCurrentUserId :: "'r remote \<Rightarrow> 'r service \<Rightarrow> (failure + string) \<times> 'r service" where
  "getCurrentUserId R s =
     (if present (currentUserId s) then (Inr (or_else (currentUserId s) []), s)
      else (case issue GET_user (r_user R) s of
              (Inr userId, s1) \<Rightarrow>
                (Inr (js_String userId), s1\<lparr>currentUserId := Some (js_String userId)\<rparr>)
            | (Inl e, s1) \<Rightarrow>
                (Inl (Other (''Failed to get current user: '' @ errorMessage_of e)), s1)))"

text \<open>
  The block that opens startTimeTracking, stopTimeTracking and getInProgressTasks:
  \<open>GET /team\<close>, then \<open>teamId || teams[0].id\<close>.
\<close>

definition targetTeamId :: "config \<Rightarrow> 'r remote \<Rightarrow> 'r service \<Rightarrow> (failure + string) \<times> 'r service" where
  "targetTeamId cfg R s =
     (case issue GET_team (r_team R) s of
        (Inl e, s1) \<Rightarrow> (Inl e, s1)
      | (Inr teams, s1) \<Rightarrow>
          (case teams of
             None \<Rightarrow> (Inl noTeams, s1)
           | Some [] \<Rightarrow> (Inl noTeams, s1)
           | Some (t # ts) \<Rightarrow> (Inr (if teamId cfg \<noteq> [] then teamId cfg else t), s1)))"

definition getCurrentTimeEntryTaskId ::
  "'r remote \<Rightarrow> string \<Rightarrow> 'r service \<Rightarrow> string option \<times> 'r service" where
  "getCurrentTimeEntryTaskId R team s =
     (case issue (GET_current team) (r_current R team) s of
        (Inr timeEntry, s1) \<Rightarrow>
          (case timeEntry of
             None \<Rightarrow> (None, s1)
           | Some te \<Rightarrow>
               (case js_or (js_or (te_task_id te) (te_task_id_flat te)) (te_taskId te) of
                  None \<Rightarrow> (None, s1)
                | Some taskId \<Rightarrow>
                    if truthy taskId then (Some (js_String taskId), s1) else (None, s1)))
      | (Inl (Http st err m), s1) \<Rightarrow>
          if st = 404 \<or> st = 400 then (None, s1)
          else (None, s1\<lparr>warnings := warnings s1 @ [''Warning: Could not get current time entry: '' @ m]\<rparr>)
      | (Inl (Other m), s1) \<Rightarrow>
          (None, s1\<lparr>warnings := warnings s1 @ [''Warning: Could not get current time entry: '' @ m]\<rparr>))"

subsection \<open>stopTimeTracking\<close>

definition stopTimeTracking_try ::
  "config \<Rightarrow> 'r remote \<Rightarrow> 'r service \<Rightarrow> (failure + string option) \<times> 'r service" where
  "stopTimeTracking_try cfg R s =
     (case targetTeamId cfg R s of
        (Inl e, s1) \<Rightarrow> (Inl e, s1)
      | (Inr team, s1) \<Rightarrow>
          (case getCurrentTimeEntryTaskId R team s1 of
             (currentlyTrackedTaskId, s2) \<Rightarrow>
               (case issue (POST_stop team) (r_stop R team) s2 of
                  (Inl e, s3) \<Rightarrow> (Inl e, s3)
                | (Inr u, s3) \<Rightarrow>
                    (case currentlyTrackedTaskId of
                       Some tracked \<Rightarrow>
                         if tracked \<noteq> [] then
                           (Inr currentlyTrackedTaskId,
                            s3\<lparr>internalTimerStartTimes :=
                                  timer_delete tracked (internalTimerStartTimes s3)\<rparr>)
                         else if timer_size (internalTimerStartTimes s3) > 0
                              then (Inr currentlyTrackedTaskId, s3\<lparr>internalTimerStartTimes := []\<rparr>)
                              else (Inr currentlyTrackedTaskId, s3)
                     | None \<Rightarrow>
                         if timer_size (internalTimerStartTimes s3) > 0
                         then (Inr None, s3\<lparr>internalTimerStartTimes := []\<rparr>)
                         else (Inr None, s3)))))"

definition stopTimeTracking ::
  "config \<Rightarrow> 'r remote \<Rightarrow> 'r service \<Rightarrow> (failure + string option) \<times> 'r service" where
  "stopTimeTracking cfg R s =
     (case getApiClient cfg s of
        (None, s0) \<Rightarrow> (Inl notConfigured, s0)
      | (Some client, s0) \<Rightarrow>
          (case stopTimeTracking_try cfg R s0 of
             (Inr r, s1) \<Rightarrow> (Inr r, s1)
           | (Inl (Http st err m), s1) \<Rightarrow>
               if st = 400 \<or> st = 404 then (Inr None, s1)
               else (Inl (Other (''Failed to stop time tracking: '' @ errorMessage_of (Http st err m))), s1)
           | (Inl (Other m), s1) \<Rightarrow> (Inl (Other m), s1)))"

subsection \<open>startTimeTracking\<close>

definition startTimeTracking_try ::
  "config \<Rightarrow> 'r remote \<Rightarrow> string \<Rightarrow> 'r service \<Rightarrow> (failure + unit) \<times> 'r service" where
  "startTimeTracking_try cfg R taskId s =
     (case targetTeamId cfg R s of
        (Inl e, s1) \<Rightarrow> (Inl e, s1)
      | (Inr team, s1) \<Rightarrow>
          (case issue (POST_start team taskId) (r_start R team taskId) s1 of
             (Inl e, s2) \<Rightarrow> (Inl e, s2)
           | (Inr u, s2) \<Rightarrow>
               (Inr (), s2\<lparr>internalTimerStartTimes :=
                             timer_set taskId (clock s2) (internalTimerStartTimes s2)\<rparr>)))"

text \<open>
  The retry is a call of the operation itself, so the recursion has no bound of its own:
  the first argument is the number of nested calls allowed, and \<open>None\<close> means that the
  call has not returned within them.
\<close>

fun startTimeTracking ::
  "nat \<Rightarrow> config \<Rightarrow> 'r remote \<Rightarrow> string \<Rightarrow> 'r service \<Rightarrow> ((failure + unit) \<times> 'r service) option" where
  "startTimeTracking 0 cfg R taskId s = None"
| "startTimeTracking (Suc fuel) cfg R taskId s =
     (case getApiClient cfg s of
        (None, s0) \<Rightarrow> Some (Inl notConfigured, s0)
      | (Some client, s0) \<Rightarrow>
          (case startTimeTracking_try cfg R taskId s0 of
             (Inr u, s1) \<Rightarrow> Some (Inr (), s1)
           | (Inl (Http st err m), s1) \<Rightarrow>
               if st = 400 \<and> includes_str (errorMessage_of (Http st err m)) ''already running''
               then (case stopTimeTracking cfg R s1 of
                       (Inl e, s2) \<Rightarrow> Some (Inl e, s2)
                     | (Inr stopped, s2) \<Rightarrow> startTimeTracking fuel cfg R taskId s2)
               else Some (Inl (Other (''Failed to start time tracking: '' @ errorMessage_of (Http st err m))), s1)
           | (Inl (Other m), s1) \<Rightarrow> Some (Inl (Other m), s1)))"

subsection \<open>getTask\<close>

definition getTask ::
  "config \<Rightarrow> 'r remote \<Rightarrow> string \<Rightarrow> 'r service \<Rightarrow> (failure + task option) \<times> 'r service" where
  "getTask cfg R taskId s =
     (case getApiClient cfg s of
        (None, s0) \<Rightarrow> (Inl notConfigured, s0)
      | (Some client, s0) \<Rightarrow>
          (case issue (GET_task taskId) (r_task R taskId) s0 of
             (Inr t, s1) \<Rightarrow>
               (Inr (Some (t\<lparr>timeTracked := Some (case time_spent t of None \<Rightarrow> 0 | Some n \<Rightarrow> n)\<rparr>)), s1)
           | (Inl (Http st err m), s1) \<Rightarrow>
               if st = 404 then (Inr None, s1) else (Inl (Http st err m), s1)
           | (Inl (Other m), s1) \<Rightarrow> (Inl (Other m), s1)))"

subsection \<open>Registry accessors\<close>

definition getInternalTimerElapsed :: "'r service \<Rightarrow> string \<Rightarrow> int" where
  "getInternalTimerElapsed s taskId =
     (case map_of (internalTimerStartTimes s) taskId of
        None \<Rightarrow> 0
      | Some startTime \<Rightarrow> if startTime = 0 then 0 else int (clock s) - int startTime)"

definition isInternallyTracked :: "'r service \<Rightarrow> string \<Rightarrow> bool" where
  "isInternallyTracked s taskId = timer_has (internalTimerStartTimes s) taskId"

definition clearInternalTimer :: "string \<Rightarrow> 'r service \<Rightarrow> 'r service" where
  "clearInternalTimer taskId s =
     s\<lparr>internalTimerStartTimes := timer_delete taskId (internalTimerStartTimes s)\<rparr>"

subsection \<open>getTasksFromList\<close>

definition pageSize :: nat where
  "pageSize = 100"

text \<open>
  The \<open>while (hasMore)\<close> loop, entered with \<open>hasMore = true\<close>: one request per round, the
  page appended, then \<open>hasMore\<close> recomputed, \<open>page\<close> incremented and the safety limit
  tested before the loop condition is read again.
\<close>

definition limit_warning :: "string \<Rightarrow> string" where
  "limit_warning listId = ''WARNING: Reached pagination limit for list '' @ listId"

function fetch_pages ::
  "'r remote \<Rightarrow> string \<Rightarrow> string option \<Rightarrow> nat \<Rightarrow> api_task list \<Rightarrow> 'r service
     \<Rightarrow> (failure + api_task list) \<times> 'r service" where
  "fetch_pages R listId assignee page allTasks s =
     (case issue (GET_list_tasks listId page assignee) (r_list_tasks R listId page assignee) s of
        (Inl e, s1) \<Rightarrow> (Inl e, s1)
      | (Inr body, s1) \<Rightarrow>
          (let tasks = (case body of None \<Rightarrow> [] | Some ts \<Rightarrow> ts);
               hasMore = (length tasks = pageSize)
           in if page + 1 > 100
              then (Inr (allTasks @ tasks),
                    s1\<lparr>warnings := warnings s1 @ [limit_warning listId]\<rparr>)
              else if hasMore then fetch_pages R listId assignee (page + 1) (allTasks @ tasks) s1
              else (Inr (allTasks @ tasks), s1)))"
  by pat_completeness auto
termination
  by (relation "measure (\<lambda>(R, listId, assignee, page, allTasks, s). 101 - page)") auto

text \<open>
  \<open>{...task, space: {id: space.id, name: space.name}, timeTracked}\<close>, pushed for a main
  task and for a sub-item alike when its identifier has not been processed yet.
\<close>

definition stamp :: "ref \<Rightarrow> task \<Rightarrow> task" where
  "stamp space t =
     t\<lparr>space_ref := Some \<lparr>ref_id = ref_id space, ref_name = ref_name space\<rparr>,
       timeTracked := Some (case time_spent t of None \<Rightarrow> 0 | Some n \<Rightarrow> n)\<rparr>"

fun push_unprocessed :: "ref \<Rightarrow> task \<Rightarrow> task list \<times> string set \<Rightarrow> task list \<times> string set" where
  "push_unprocessed space t (processedTasks, processedTaskIds) =
     (if task_id t \<notin> processedTaskIds
      then (processedTasks @ [stamp space t], insert (task_id t) processedTaskIds)
      else (processedTasks, processedTaskIds))"

fun process_task :: "ref \<Rightarrow> api_task \<Rightarrow> task list \<times> string set \<Rightarrow> task list \<times> string set" where
  "process_task space (ApiTask t subs) acc =
     fold (push_unprocessed space) (case subs of None \<Rightarrow> [] | Some ss \<Rightarrow> ss)
       (push_unprocessed space t acc)"

definition process_tasks :: "ref \<Rightarrow> api_task list \<Rightarrow> task list" where
  "process_tasks space allTasks = fst (fold (process_task space) allTasks ([], {}))"

text \<open>The identifiers that an entry of a page carries: its own and those of its sub-items.\<close>

fun ids_of :: "api_task \<Rightarrow> string list" where
  "ids_of (ApiTask t subs) = task_id t # map task_id (case subs of None \<Rightarrow> [] | Some ss \<Rightarrow> ss)"

definition getTasksFromList ::
  "'r remote \<Rightarrow> string \<Rightarrow> ref \<Rightarrow> string \<Rightarrow> 'r service \<Rightarrow> task list \<times> 'r service" where
  "getTasksFromList R listId space assigneeId s =
     (case fetch_pages R listId (if assigneeId \<noteq> [] then Some assigneeId else None) 0 [] s of
        (Inl e, s1) \<Rightarrow> ([], s1)
      | (Inr allTasks, s1) \<Rightarrow> (process_tasks space allTasks, s1))"

subsection \<open>getInProgressTasks\<close>

text \<open>\<open>for (const list of lists) tasks.push(...await getTasksFromList(...))\<close>\<close>

fun walk_lists ::
  "'r remote \<Rightarrow> ref \<Rightarrow> string \<Rightarrow> string list \<Rightarrow> task list \<Rightarrow> 'r service \<Rightarrow> task list \<times> 'r service" where
  "walk_lists R space uid [] tasks s = (tasks, s)"
| "walk_lists R space uid (listId # listIds) tasks s =
     (case getTasksFromList R listId space uid s of
        (listTasks, s1) \<Rightarrow> walk_lists R space uid listIds (tasks @ listTasks) s1)"

text \<open>
  The loop over the folders of a space. A failing request leaves the loop with the error
  (first component), the tasks pushed so far staying in \<open>tasks\<close>.
\<close>

fun walk_folders ::
  "'r remote \<Rightarrow> ref \<Rightarrow> string \<Rightarrow> string list \<Rightarrow> task list \<Rightarrow> 'r service
     \<Rightarrow> failure option \<times> task list \<times> 'r service" where
  "walk_folders R space uid [] tasks s = (None, tasks, s)"
| "walk_folders R space uid (folderId # folders) tasks s =
     (case issue (GET_folder_lists folderId) (r_folder_lists R folderId) s of
        (Inl e, s1) \<Rightarrow> (Some e, tasks, s1)
      | (Inr body, s1) \<Rightarrow>
          (case walk_lists R space uid (case body of None \<Rightarrow> [] | Some ls \<Rightarrow> ls) tasks s1 of
             (tasks1, s2) \<Rightarrow> walk_folders R space uid folders tasks1 s2))"

text \<open>The body of the loop over spaces, with its \<open>try\<close>/\<open>catch\<close> that only reports.\<close>

definition walk_space ::
  "'r remote \<Rightarrow> string \<Rightarrow> ref \<Rightarrow> task list \<Rightarrow> 'r service \<Rightarrow> task list \<times> 'r service" where
  "walk_space R uid space tasks s =
     (case issue (GET_folders (ref_id space)) (r_folders R (ref_id space)) s of
        (Inl e, s1) \<Rightarrow> (tasks, s1)
      | (Inr folders, s1) \<Rightarrow>
          (case walk_folders R space uid (case folders of None \<Rightarrow> [] | Some fs \<Rightarrow> fs) tasks s1 of
             (Some e, tasks1, s2) \<Rightarrow> (tasks1, s2)
           | (None, tasks1, s2) \<Rightarrow>
               (case issue (GET_space_lists (ref_id space)) (r_space_lists R (ref_id space)) s2 of
                  (Inl e, s3) \<Rightarrow> (tasks1, s3)
                | (Inr spaceLists, s3) \<Rightarrow>
                    walk_lists R space uid (case spaceLists of None \<Rightarrow> [] | Some ls \<Rightarrow> ls) tasks1 s3)))"

fun walk_spaces ::
  "'r remote \<Rightarrow> string \<Rightarrow> ref list \<Rightarrow> task list \<Rightarrow> 'r service \<Rightarrow> task list \<times> 'r service" where
  "walk_spaces R uid [] tasks s = (tasks, s)"
| "walk_spaces R uid (space # spaces) tasks s =
     (case walk_space R uid space tasks s of
        (tasks1, s1) \<Rightarrow> walk_spaces R uid spaces tasks1 s1)"

definition getInProgressTasks_try ::
  "config \<Rightarrow> 'r remote \<Rightarrow> 'r service \<Rightarrow> (failure + task list) \<times> 'r service" where
  "getInProgressTasks_try cfg R s =
     (case targetTeamId cfg R s of
        (Inl e, s1) \<Rightarrow> (Inl e, s1)
      | (Inr team, s1) \<Rightarrow>
          (case getCurrentUserId R s1 of
             (Inl e, s2) \<Rightarrow> (Inl e, s2)
           | (Inr uid, s2) \<Rightarrow>
               (case getCurrentTimeEntryTaskId R team s2 of
                  (currentlyTrackedTaskId, s3) \<Rightarrow>
                    (case issue (GET_spaces team) (r_spaces R team) s3 of
                       (Inl e, s4) \<Rightarrow> (Inl e, s4)
                     | (Inr spaces, s4) \<Rightarrow>
                         (case walk_spaces R uid (case spaces of None \<Rightarrow> [] | Some sp \<Rightarrow> sp) [] s4 of
                            (tasks, s5) \<Rightarrow>
                              (case reconcile currentlyTrackedTaskId (clock s5)
                                      (filterTasks uid (inProgressStatuses_of (inProgressStatuses cfg)) tasks)
                                      (internalTimerStartTimes s5) of
                                 (filteredTasks, reg) \<Rightarrow>
                                   (Inr filteredTasks, s5\<lparr>internalTimerStartTimes := reg\<rparr>)))))))"

definition getInProgressTasks ::
  "config \<Rightarrow> 'r remote \<Rightarrow> 'r service \<Rightarrow> (failure + task list) \<times> 'r service" where
  "getInProgressTasks cfg R s =
     (case getApiClient cfg s of
        (None, s0) \<Rightarrow> (Inl notConfigured, s0)
      | (Some client, s0) \<Rightarrow>
          (case getInProgressTasks_try cfg R s0 of
             (Inr r, s1) \<Rightarrow> (Inr r, s1)
           | (Inl (Http st err m), s1) \<Rightarrow>
               if st = 401
               then (Inl (Other ''Invalid ClickUp API token. Please check your configuration.''), s1)
               else (Inl (Other (''ClickUp API error: '' @ errorMessage_of (Http st err m))), s1)
           | (Inl (Other m), s1) \<Rightarrow> (Inl (Other m), s1)))"

subsection \<open>debugListAllMyTasks and debugFetchRawTasks\<close>

text \<open>
  The two debug walks write what they find to the log and return nothing. What they
  collect on the way (tasks, identifiers seen, status names) goes to the log only, so
  the model keeps their requests. An error inside their \<open>try\<close> is logged and ends the
  walk; only the missing credential, tested before the \<open>try\<close>, is thrown.

  The page loop of both walks: it ends on a short page, after page 100, or at a failed
  request (\<open>True\<close>), which the nearest \<open>catch\<close> logs.
\<close>

function debug_pages ::
  "'r remote \<Rightarrow> bool \<Rightarrow> string \<Rightarrow> string option \<Rightarrow> nat \<Rightarrow> 'r service \<Rightarrow> bool \<times> 'r service" where
  "debug_pages R closed listId assignee page s =
     (case issue (GET_list_tasks_flat closed listId page assignee)
             (r_list_tasks_flat R closed listId page assignee) s of
        (Inl e, s1) \<Rightarrow> (True, s1)
      | (Inr body, s1) \<Rightarrow>
          (let tasks = (case body of None \<Rightarrow> [] | Some ts \<Rightarrow> ts);
               hasMore = (length tasks = pageSize)
           in if page + 1 > 100 then (False, s1)
              else if hasMore then debug_pages R closed listId assignee (page + 1) s1
              else (False, s1)))"
  by pat_completeness auto
termination
  by (relation "measure (\<lambda>(R, closed, listId, assignee, page, s). 101 - page)") auto

text \<open>What debugListAllMyTasks does with a list: all its pages, with no assignee filter.\<close>

definition all_tasks_of_list :: "'r remote \<Rightarrow> bool \<Rightarrow> string \<Rightarrow> 'r service \<Rightarrow> 'r service" where
  "all_tasks_of_list R closed listId s = snd (debug_pages R closed listId None 0 s)"

text \<open>
  What debugFetchRawTasks does with a list of a folder (the details and the pages each
  in a \<open>try\<close> of their own) and with a folder-less list (both in one \<open>try\<close>).
\<close>

definition raw_folder_list :: "'r remote \<Rightarrow> string \<Rightarrow> string \<Rightarrow> 'r service \<Rightarrow> 'r service" where
  "raw_folder_list R uid listId s =
     (case issue (GET_list listId) (r_list R listId) s of
        (details, s1) \<Rightarrow> snd (debug_pages R False listId (Some uid) 0 s1))"

definition raw_space_list :: "'r remote \<Rightarrow> string \<Rightarrow> string \<Rightarrow> 'r service \<Rightarrow> 'r service" where
  "raw_space_list R uid listId s =
     (case issue (GET_list listId) (r_list R listId) s of
        (Inl e, s1) \<Rightarrow> s1
      | (Inr details, s1) \<Rightarrow> snd (debug_pages R False listId (Some uid) 0 s1))"

text \<open>
  The loop over the folders of a space, \<open>act\<close> being what is done with each list; a
  failing request for the lists of a folder leaves the loop (\<open>True\<close>).
\<close>

fun debug_folders ::
  "'r remote \<Rightarrow> (string \<Rightarrow> 'r service \<Rightarrow> 'r service) \<Rightarrow> string list \<Rightarrow> 'r service \<Rightarrow> bool \<times> 'r service" where
  "debug_folders R act [] s = (False, s)"
| "debug_folders R act (folderId # folders) s =
     (case issue (GET_folder_lists folderId) (r_folder_lists R folderId) s of
        (Inl e, s1) \<Rightarrow> (True, s1)
      | (Inr body, s1) \<Rightarrow>
          debug_folders R act folders (fold act (case body of None \<Rightarrow> [] | Some ls \<Rightarrow> ls) s1))"

definition debug_space ::
  "'r remote \<Rightarrow> (string \<Rightarrow> 'r service \<Rightarrow> 'r service) \<Rightarrow> (string \<Rightarrow> 'r service \<Rightarrow> 'r service)
     \<Rightarrow> ref \<Rightarrow> 'r service \<Rightarrow> 'r service" where
  "debug_space R in_folder in_space space s =
     (case issue (GET_folders (ref_id space)) (r_folders R (ref_id space)) s of
        (Inl e, s1) \<Rightarrow> s1
      | (Inr folders, s1) \<Rightarrow>
          (case debug_folders R in_folder (case folders of None \<Rightarrow> [] | Some fs \<Rightarrow> fs) s1 of
             (True, s2) \<Rightarrow> s2
           | (False, s2) \<Rightarrow>
               (case issue (GET_space_lists (ref_id space)) (r_space_lists R (ref_id space)) s2 of
                  (Inl e, s3) \<Rightarrow> s3
                | (Inr spaceLists, s3) \<Rightarrow>
                    fold in_space (case spaceLists of None \<Rightarrow> [] | Some ls \<Rightarrow> ls) s3)))"

text \<open>
  The body of the \<open>try\<close> of debugListAllMyTasks. The team is \<open>teams[0].id\<close>, whatever the
  settings say; without teams that expression throws, which ends the walk.
\<close>

definition debugListAllMyTasks_try :: "'r remote \<Rightarrow> 'r service \<Rightarrow> 'r service" where
  "debugListAllMyTasks_try R s =
     (case getCurrentUserId R s of
        (Inl e, s1) \<Rightarrow> s1
      | (Inr uid, s1) \<Rightarrow>
          (case issue GET_team (r_team R) s1 of
             (Inl e, s2) \<Rightarrow> s2
           | (Inr None, s2) \<Rightarrow> s2
           | (Inr (Some []), s2) \<Rightarrow> s2
           | (Inr (Some (team # teams)), s2) \<Rightarrow>
               (case issue (GET_team_tasks team uid) (r_team_tasks R team uid) s2 of
                  (teamTasks, s3) \<Rightarrow>
                    (case issue (GET_spaces team) (r_spaces R team) s3 of
                       (Inl e, s4) \<Rightarrow> s4
                     | (Inr spaces, s4) \<Rightarrow>
                         fold (debug_space R (all_tasks_of_list R True) (all_tasks_of_list R False))
                           (case spaces of None \<Rightarrow> [] | Some sp \<Rightarrow> sp) s4))))"

definition debugListAllMyTasks ::
  "config \<Rightarrow> 'r remote \<Rightarrow> 'r service \<Rightarrow> (failure + unit) \<times> 'r service" where
  "debugListAllMyTasks cfg R s =
     (case getApiClient cfg s of
        (None, s0) \<Rightarrow> (Inl notConfigured, s0)
      | (Some client, s0) \<Rightarrow> (Inr (), debugListAllMyTasks_try R s0))"

definition debugFetchRawTasks_try :: "'r remote \<Rightarrow> 'r service \<Rightarrow> 'r service" where
  "debugFetchRawTasks_try R s =
     (case getCurrentUserId R s of
        (Inl e, s1) \<Rightarrow> s1
      | (Inr uid, s1) \<Rightarrow>
          (case issue GET_team (r_team R) s1 of
             (Inl e, s2) \<Rightarrow> s2
           | (Inr None, s2) \<Rightarrow> s2
           | (Inr (Some []), s2) \<Rightarrow> s2
           | (Inr (Some (team # teams)), s2) \<Rightarrow>
               (case issue (GET_spaces team) (r_spaces R team) s2 of
                  (Inl e, s3) \<Rightarrow> s3
                | (Inr spaces, s3) \<Rightarrow>
                    fold (debug_space R (raw_folder_list R uid) (raw_space_list R uid))
                      (case spaces of None \<Rightarrow> [] | Some sp \<Rightarrow> sp) s3)))"

definition debugFetchRawTasks ::
  "config \<Rightarrow> 'r remote \<Rightarrow> 'r service \<Rightarrow> (failure + unit) \<times> 'r service" where
  "debugFetchRawTasks cfg R s =
     (case getApiClient cfg s of
        (None, s0) \<Rightarrow> (Inl notConfigured, s0)
      | (Some client, s0) \<Rightarrow> (Inr (), debugFetchRawTasks_try R s0))"

section \<open>class ClickUpTasksProvider\<close>

text \<open>
  The snapshot shown in the tree, and the error messages put on screen. \<open>refresh\<close> starts
  getInProgressTasks and installs its result when it settles; the model runs it to its
  end at the point where it is triggered.
\<close>

record provider =
  tasks :: "task list"
  loading :: bool
  shown_errors :: "string list"

definition refresh ::
  "config \<Rightarrow> 'r remote \<Rightarrow> provider \<Rightarrow> 'r service \<Rightarrow> provider \<times> 'r service" where
  "refresh cfg R p s =
     (case getInProgressTasks cfg R s of
        (Inr ts, s1) \<Rightarrow> (p\<lparr>tasks := ts, loading := False\<rparr>, s1)
      | (Inl e, s1) \<Rightarrow>
          (p\<lparr>loading := False,
             shown_errors := shown_errors p @ [''Failed to load ClickUp tasks: '' @ error_message e]\<rparr>, s1))"

text \<open>\<open>Array.prototype.findIndex\<close>, with \<open>None\<close> for \<open>-1\<close>.\<close>

fun findIndex :: "('a \<Rightarrow> bool) \<Rightarrow> 'a list \<Rightarrow> nat option" where
  "findIndex P [] = None"
| "findIndex P (x # xs) = (if P x then Some 0 else map_option Suc (findIndex P xs))"

definition updateTask ::
  "config \<Rightarrow> 'r remote \<Rightarrow> string \<Rightarrow> provider \<Rightarrow> 'r service \<Rightarrow> provider \<times> 'r service" where
  "updateTask cfg R taskId p s =
     (case getTask cfg R taskId s of
        (Inl e, s1) \<Rightarrow> refresh cfg R p s1
      | (Inr None, s1) \<Rightarrow> (p\<lparr>tasks := filter (\<lambda>t. task_id t \<noteq> taskId) (tasks p)\<rparr>, s1)
      | (Inr (Some updatedTask), s1) \<Rightarrow>
          (case findIndex (\<lambda>t. task_id t = taskId) (tasks p) of
             None \<Rightarrow> (p, s1)
           | Some taskIndex \<Rightarrow>
               (let existingTask = tasks p ! taskIndex;
                    u1 = updatedTask\<lparr>list_ref := list_ref existingTask\<rparr>;
                    u2 = (if space_ref existingTask \<noteq> None \<and> space_ref u1 = None
                          then u1\<lparr>space_ref := space_ref existingTask\<rparr> else u1);
                    u3 = u2\<lparr>isCurrentlyTracked := Some (isInternallyTracked s1 taskId)\<rparr>
                in (p\<lparr>tasks := (tasks p)[taskIndex := u3]\<rparr>, s1))))"

section \<open>Observing a run of getInProgressTasks\<close>

text \<open>
  What the current-timer query of a run returns: the run up to that query, and the
  result of the query (\<open>None\<close> also when the run ends before it).
\<close>

definition tracked_in_run :: "config \<Rightarrow> 'r remote \<Rightarrow> 'r service \<Rightarrow> string option" where
  "tracked_in_run cfg R s =
     (case getApiClient cfg s of
        (None, s0) \<Rightarrow> None
      | (Some client, s0) \<Rightarrow>
          (case targetTeamId cfg R s0 of
             (Inl e, s1) \<Rightarrow> None
           | (Inr team, s1) \<Rightarrow>
               (case getCurrentUserId R s1 of
                  (Inl e, s2) \<Rightarrow> None
                | (Inr uid, s2) \<Rightarrow> fst (getCurrentTimeEntryTaskId R team s2))))"

text \<open>The failures of the current-timer request that the query passes over in silence.\<close>

definition benign :: "failure \<Rightarrow> bool" where
  "benign e = (case e of Http st err m \<Rightarrow> st = 404 \<or> st = 400 | Other m \<Rightarrow> False)"

section \<open>Sample remotes, settings and states\<close>

definition not_found :: failure where
  "not_found = Http 404 None ''Request failed with status code 404''"

definition already_running :: failure where
  "already_running = Http 400 (Some ''Timer is already running'') ''Request failed with status code 400''"

definition server_error :: failure where
  "server_error = Http 500 (Some ''Internal error'') ''Request failed with status code 500''"

text \<open>A remote with one team and user 7, and nothing else to report.\<close>

definition quiet_remote :: "'r remote" where
  "quiet_remote =
     \<lparr>r_user = (\<lambda>r. (Inr (IdNum 7), r)),
      r_team = (\<lambda>r. (Inr (Some [''T1'']), r)),
      r_current = (\<lambda>team r. (Inl not_found, r)),
      r_start = (\<lambda>team taskId r. (Inr (), r)),
      r_stop = (\<lambda>team r. (Inr (), r)),
      r_task = (\<lambda>taskId r. (Inl not_found, r)),
      r_spaces = (\<lambda>team r. (Inr (Some []), r)),
      r_folders = (\<lambda>space r. (Inr (Some []), r)),
      r_folder_lists = (\<lambda>folder r. (Inr (Some []), r)),
      r_space_lists = (\<lambda>space r. (Inr (Some []), r)),
      r_list_tasks = (\<lambda>listId page assignee r. (Inr (Some []), r)),
      r_team_tasks = (\<lambda>team assignee r. (Inr (Some []), r)),
      r_list_tasks_flat = (\<lambda>closed listId page assignee r. (Inr (Some []), r)),
      r_list = (\<lambda>listId r. (Inr (), r))\<rparr>"

text \<open>
  A remote that runs at most one timer, its state being the task tracked: it refuses to
  start a timer while one runs.
\<close>

definition timer_remote :: "string option remote" where
  "timer_remote =
     quiet_remote
       \<lparr>r_current := (\<lambda>team r. case r of
                         None \<Rightarrow> (Inl not_found, r)
                       | Some t \<Rightarrow> (Inr (Some \<lparr>te_task_id = Some (IdStr t), te_task_id_flat = None,
                                                te_taskId = None\<rparr>), r)),
        r_start := (\<lambda>team taskId r. case r of
                         None \<Rightarrow> (Inr (), Some taskId)
                       | Some t \<Rightarrow> (Inl already_running, r)),
        r_stop := (\<lambda>team r. (Inr (), None))\<rparr>"

definition sample_task :: "string \<Rightarrow> task" where
  "sample_task i =
     \<lparr>task_id = i, task_name = ''Task '' @ i, status = ''In Progress'',
      assignees = Some [\<lparr>a_id = Some (IdNum 7), a_user_id = None, a_user_id_flat = None\<rparr>],
      list_ref = None, space_ref = None, time_spent = None, timeTracked = None,
      isCurrentlyTracked = None\<rparr>"

text \<open>
  One space with a folder holding list L1 and with the folder-less list L2; task A is in
  both lists, each of which has a single short page.
\<close>

definition workspace_remote :: "string option remote" where
  "workspace_remote =
     timer_remote
       \<lparr>r_spaces := (\<lambda>team r. (Inr (Some [\<lparr>ref_id = ''S1'', ref_name = ''Space''\<rparr>]), r)),
        r_folders := (\<lambda>space r. (Inr (Some [''F1'']), r)),
        r_folder_lists := (\<lambda>folder r. (Inr (Some [''L1'']), r)),
        r_space_lists := (\<lambda>space r. (Inr (Some [''L2'']), r)),
        r_list_tasks := (\<lambda>listId page assignee r.
                           (Inr (Some (if page = 0 then [ApiTask (sample_task ''A'') None] else [])), r))\<rparr>"

text \<open>Task A as a list of space S1 yields it.\<close>

definition seen_in_space :: task where
  "seen_in_space = stamp \<lparr>ref_id = ''S1'', ref_name = ''Space''\<rparr> (sample_task ''A'')"

text \<open>A remote whose lists all have the same pages: page \<open>p\<close> holds \<open>pg p\<close>.\<close>

definition paged_remote :: "(nat \<Rightarrow> api_task list) \<Rightarrow> unit remote" where
  "paged_remote pg = quiet_remote\<lparr>r_list_tasks := (\<lambda>listId page assignee r. (Inr (Some (pg page)), r))\<rparr>"

definition full_page :: "api_task list" where
  "full_page = replicate 100 (ApiTask (sample_task ''A'') None)"

text \<open>The sample task with a single assignee.\<close>

definition assigned_by :: "assignee \<Rightarrow> task" where
  "assigned_by a = (sample_task ''A'')\<lparr>assignees := Some [a]\<rparr>"

text \<open>A remote whose current-timer endpoint is out of order.\<close>

definition broken_current :: "unit remote" where
  "broken_current = quiet_remote\<lparr>r_current := (\<lambda>team r. (Inl server_error, r))\<rparr>"

text \<open>
  Remotes that refuse to start a timer: twice and then no more (the state counts the
  refusals); while a timer runs, failing with status 500 otherwise; and always.
\<close>

definition refuse_twice :: "nat remote" where
  "refuse_twice =
     quiet_remote\<lparr>r_start := (\<lambda>team taskId n. if n < 2 then (Inl already_running, Suc n) else (Inr (), n))\<rparr>"

definition failing_retry :: "string option remote" where
  "failing_retry =
     timer_remote\<lparr>r_start := (\<lambda>team taskId r. case r of
                                  None \<Rightarrow> (Inl server_error, r)
                                | Some t \<Rightarrow> (Inl already_running, r))\<rparr>"

definition stubborn :: "unit remote" where
  "stubborn = quiet_remote\<lparr>r_start := (\<lambda>team taskId r. (Inl already_running, r))\<rparr>"

text \<open>
  A remote on which a timer runs that this account cannot stop: every start request is
  refused as already running, and the stop request is answered with status 404.
\<close>

definition unstoppable :: "unit remote" where
  "unstoppable =
     quiet_remote
       \<lparr>r_current := (\<lambda>team r. (Inr (Some \<lparr>te_task_id = Some (IdStr ''A''), te_task_id_flat = None,
                                               te_taskId = None\<rparr>), r)),
        r_start := (\<lambda>team taskId r. (Inl already_running, r)),
        r_stop := (\<lambda>team r. (Inl not_found, r))\<rparr>"

text \<open>
  A remote on which every task exists, with status Done; a task as a walk leaves it in
  the snapshot, with its list and space; and a snapshot of two such tasks.
\<close>

definition task_remote :: "unit remote" where
  "task_remote = quiet_remote\<lparr>r_task := (\<lambda>taskId r. (Inr ((sample_task taskId)\<lparr>status := ''Done''\<rparr>), r))\<rparr>"

text \<open>
  The sample workspace with the task endpoint out of order, and the sample workspace
  once its tasks are done, as the task endpoint reports them.
\<close>

definition task_down :: "string option remote" where
  "task_down = workspace_remote\<lparr>r_task := (\<lambda>taskId r. (Inl server_error, r))\<rparr>"

definition workspace_done :: "string option remote" where
  "workspace_done =
     workspace_remote\<lparr>r_task := (\<lambda>taskId r. (Inr ((sample_task taskId)\<lparr>status := ''Done''\<rparr>), r))\<rparr>"

definition listed_task :: "string \<Rightarrow> task" where
  "listed_task i =
     (sample_task i)\<lparr>list_ref := Some \<lparr>ref_id = ''L1'', ref_name = ''List''\<rparr>,
                      space_ref := Some \<lparr>ref_id = ''S1'', ref_name = ''Space''\<rparr>\<rparr>"

definition snapshot_xy :: provider where
  "snapshot_xy = \<lparr>tasks = [listed_task ''X'', listed_task ''Y''], loading = False, shown_errors = []\<rparr>"

text \<open>A list of 101 full pages followed by empty ones, and the requests for the first \<open>n\<close> pages.\<close>

definition overfull_pages :: "nat \<Rightarrow> api_task list" where
  "overfull_pages p = (if p \<le> 100 then full_page else [])"

definition page_requests :: "string \<Rightarrow> string option \<Rightarrow> nat \<Rightarrow> request list" where
  "page_requests listId assignee n = map (\<lambda>p. GET_list_tasks listId p assignee) [0..<n]"

definition sample_config :: config where
  "sample_config =
     \<lparr>apiToken = ''pk_1'', env_CLICKUP_API_KEY = None, env_CLICKUP_API_TOKEN = None,
      teamId = [], inProgressStatuses = None\<rparr>"

definition no_credential :: config where
  "no_credential =
     \<lparr>apiToken = [], env_CLICKUP_API_KEY = None, env_CLICKUP_API_TOKEN = Some [],
      teamId = [], inProgressStatuses = None\<rparr>"

text \<open>A service object just constructed, facing a remote in state \<open>r\<close>, with a given registry.\<close>

definition service_with :: "registry \<Rightarrow> 'r \<Rightarrow> 'r service" where
  "service_with reg r =
     \<lparr>apiClient = None, currentUserId = None, internalTimerStartTimes = reg,
      remote_state = r, clock = 1000, requests = [], warnings = []\<rparr>"

text \<open>
  The provider and the service after the first full refresh of the sample workspace,
  made while task A is tracked remotely and the registry still holds B.
\<close>

definition after_walk :: "provider \<times> string option service" where
  "after_walk =
     refresh sample_config workspace_remote \<lparr>tasks = [], loading = True, shown_errors = []\<rparr>
       (service_with [(''B'', 5)] (Some ''A''))"

section \<open>Properties of the registry and of reconciliation\<close>

declare string_of_nat.simps [simp del]
declare fetch_pages.simps [simp del]

lemma string_of_nat_nonempty: "string_of_nat n \<noteq> []"
  by (subst string_of_nat.simps) simp

lemma js_String_truthy: "truthy v \<Longrightarrow> js_String v \<noteq> []"
  by (cases v) (auto simp: string_of_nat_nonempty)

lemma fold_timer_delete:
  "fold timer_delete ks reg = filter (\<lambda>p. fst p \<notin> set ks) reg"
proof (induction ks arbitrary: reg)
  case Nil
  then show ?case by simp
next
  case (Cons k ks)
  have "timer_delete k reg = filter (\<lambda>p. fst p \<noteq> k) reg"
    by (auto simp add: timer_delete_def AList.delete_eq case_prod_unfold intro: filter_cong)
  with Cons show ?case by (simp add: conj_commute)
qed

lemma keys_after_purge:
  "set (timer_keys (fold timer_delete (filter (\<lambda>k. k \<noteq> t) (timer_keys reg)) reg)) \<subseteq> {t}"
  by (auto simp: fold_timer_delete timer_keys_def)

lemma distinct_after_purge:
  "distinct (timer_keys reg) \<Longrightarrow> distinct (timer_keys (fold timer_delete ks reg))"
  by (simp add: fold_timer_delete timer_keys_def distinct_map_filter)

lemma timer_keys_set: "set (timer_keys (timer_set k v reg)) = insert k (set (timer_keys reg))"
  by (simp add: timer_keys_def timer_set_def AList.dom_update)
 
lemma distinct_timer_set: "distinct (timer_keys reg) \<Longrightarrow> distinct (timer_keys (timer_set k v reg))"
  by (simp add: timer_keys_def timer_set_def AList.distinct_update)

lemma distinct_timer_delete: "distinct (timer_keys reg) \<Longrightarrow> distinct (timer_keys (timer_delete k reg))"
  by (simp add: timer_keys_def timer_delete_def AList.distinct_delete)

lemma mark_tracked_keys:
  "mark_tracked t now ts reg = (ts', reg') \<Longrightarrow>
     set (timer_keys reg') \<subseteq> insert t (set (timer_keys reg)) \<and>
     (distinct (timer_keys reg) \<longrightarrow> distinct (timer_keys reg'))"
proof (induction ts arbitrary: reg ts' reg')
  case Nil
  then show ?case by auto
next
  case (Cons a ts)
  define reg1 where "reg1 = (if task_id a = t \<and> \<not> timer_has reg (task_id a)
                             then timer_set (task_id a) now reg else reg)"
  obtain ts1 reg2 where r: "mark_tracked t now ts reg1 = (ts1, reg2)"
    by (cases "mark_tracked t now ts reg1") auto
  with Cons.prems have eq: "reg' = reg2"
    by (simp add: Let_def reg1_def)
  have k1: "set (timer_keys reg1) \<subseteq> insert t (set (timer_keys reg))"
    by (auto simp: reg1_def timer_keys_set)
  have d1: "distinct (timer_keys reg) \<longrightarrow> distinct (timer_keys reg1)"
    by (simp add: reg1_def distinct_timer_set)
  from Cons.IH[OF r] k1 d1 eq show ?case by auto
qed

lemma distinct_subset_singleton: "distinct xs \<Longrightarrow> set xs \<subseteq> {t} \<Longrightarrow> length xs \<le> 1"
  by (metis distinct_card card_mono finite.emptyI finite.insertI card.empty card_insert_disjoint
      One_nat_def empty_iff)

lemma reconcile_registry:
  assumes "distinct (timer_keys reg)" and "reconcile cur now ts reg = (ts', reg')"
  shows "timer_size reg' \<le> 1 \<and> (\<forall>k \<in> set (timer_keys reg'). cur = Some k) \<and>
         (\<not> present cur \<longrightarrow> reg' = [])"
proof (cases "present cur")
  case False
  with assms(2) show ?thesis
    by (cases cur) (auto simp: reconcile_def timer_size_def timer_keys_def split: if_splits)
next
  case True
  then obtain t where cur: "cur = Some t" and t: "t \<noteq> []" by (cases cur) auto
  let ?reg1 = "fold timer_delete (filter (\<lambda>k. k \<noteq> t) (timer_keys reg)) reg"
  from assms(2) cur t have m: "mark_tracked t now ts ?reg1 = (ts', reg')"
    by (simp add: reconcile_def)
  from mark_tracked_keys[OF m] keys_after_purge[of t reg] distinct_after_purge[OF assms(1)]
  have sub: "set (timer_keys reg') \<subseteq> {t}" and d: "distinct (timer_keys reg')" by auto
  from distinct_subset_singleton[OF d sub] have "timer_size reg' \<le> 1"
    by (simp add: timer_size_def timer_keys_def)
  with sub cur True show ?thesis by auto
qed

subsection \<open>Sample runs, evaluated\<close>

lemma string_of_nat_7: "string_of_nat 7 = ''7''"
  by code_simp

lemma default_statuses_lower:
  "inProgressStatuses_of None = [''in progress'', ''active'', ''working'', ''in-progress'']"
  by code_simp

lemma sample_status_normal: "trim (toLowerCase ''In Progress'') = ''in progress''"
  by code_simp

lemmas sample_defs =
  sample_config_def no_credential_def workspace_remote_def timer_remote_def quiet_remote_def
  service_with_def sample_task_def not_found_def already_running_def server_error_def

lemmas service_defs =
  getApiClient_def env_token_def targetTeamId_def issue_def getCurrentUserId_def
  getCurrentTimeEntryTaskId_def notConfigured_def noTeams_def

lemmas walk_defs =
  getInProgressTasks_def getInProgressTasks_try_def walk_space_def getTasksFromList_def
  fetch_pages.simps pageSize_def process_tasks_def stamp_def filterTasks_def task_passes_def
  isAssignedToMe_def assigneeIds_def assigneeId_of_def status_matches_def statusValue_def
  reconcile_def timer_keys_def timer_delete_def timer_has_def timer_set_def timer_size_def

lemma workspace_run:
  "getInProgressTasks sample_config workspace_remote (service_with [(''B'', 5)] (Some ''A'')) =
     (Inr [seen_in_space\<lparr>isCurrentlyTracked := Some True\<rparr>,
           seen_in_space\<lparr>isCurrentlyTracked := Some True\<rparr>],
      \<lparr>apiClient = Some (axios_create ''pk_1''), currentUserId = Some ''7'',
       internalTimerStartTimes = [(''A'', 1000)], remote_state = Some ''A'', clock = 1000,
       requests =
         [GET_team, GET_user, GET_current ''T1'', GET_spaces ''T1'', GET_folders ''S1'',
          GET_folder_lists ''F1'', GET_list_tasks ''L1'' 0 (Some ''7''), GET_space_lists ''S1'',
          GET_list_tasks ''L2'' 0 (Some ''7'')],
       warnings = []\<rparr>)"
  by (simp add: sample_defs service_defs walk_defs seen_in_space_def string_of_nat_7
      default_statuses_lower sample_status_normal Let_def)

lemma workspace_tracked:
  "tracked_in_run sample_config workspace_remote (service_with [(''B'', 5)] (Some ''A'')) = Some ''A''"
  by (simp add: tracked_in_run_def sample_defs service_defs string_of_nat_7 Let_def)

subsection \<open>The requests of a run leave the registry alone\<close>

lemma issue_registry:
  "issue rq f s = (a, s') \<Longrightarrow> internalTimerStartTimes s' = internalTimerStartTimes s"
  by (auto simp: issue_def split: prod.splits)

lemma getApiClient_registry:
  "getApiClient cfg s = (c, s') \<Longrightarrow> internalTimerStartTimes s' = internalTimerStartTimes s"
  by (auto simp: getApiClient_def Let_def split: if_splits)

lemma targetTeamId_registry:
  "targetTeamId cfg R s = (a, s') \<Longrightarrow> internalTimerStartTimes s' = internalTimerStartTimes s"
  by (auto simp: targetTeamId_def split: prod.splits sum.splits option.splits list.splits
      dest: issue_registry)

lemma getCurrentUserId_registry:
  "getCurrentUserId R s = (a, s') \<Longrightarrow> internalTimerStartTimes s' = internalTimerStartTimes s"
  by (auto simp: getCurrentUserId_def split: prod.splits sum.splits if_splits
      dest: issue_registry)

lemma getCurrentTimeEntryTaskId_registry:
  "getCurrentTimeEntryTaskId R team s = (a, s') \<Longrightarrow>
     internalTimerStartTimes s' = internalTimerStartTimes s"
  by (auto simp: getCurrentTimeEntryTaskId_def
      split: prod.splits sum.splits option.splits failure.splits if_splits
      dest: issue_registry)

lemma fetch_pages_registry:
  "fetch_pages R listId assignee page allTasks s = (a, s') \<Longrightarrow>
     internalTimerStartTimes s' = internalTimerStartTimes s"
proof (induction R listId assignee page allTasks s rule: fetch_pages.induct)
  case (1 R listId assignee page allTasks s)
  obtain rep s1 where i: "issue (GET_list_tasks listId page assignee)
      (r_list_tasks R listId page assignee) s = (rep, s1)"
    by (cases "issue (GET_list_tasks listId page assignee) (r_list_tasks R listId page assignee) s") auto
  note reg1 = issue_registry[OF i]
  show ?case
  proof (cases rep)
    case (Inl e)
    with "1.prems" i reg1 show ?thesis
      by (subst (asm) fetch_pages.simps) auto
  next
    case (Inr body)
    with "1.prems" i reg1 "1.IH"[OF i[symmetric] Inr refl refl] show ?thesis
      by (subst (asm) fetch_pages.simps) (auto simp: Let_def split: if_splits)
  qed
qed

lemma getTasksFromList_registry:
  "getTasksFromList R listId space uid s = (a, s') \<Longrightarrow>
     internalTimerStartTimes s' = internalTimerStartTimes s"
  by (auto simp: getTasksFromList_def split: prod.splits sum.splits dest: fetch_pages_registry)

lemma walk_lists_registry:
  "walk_lists R space uid ls acc s = (a, s') \<Longrightarrow>
     internalTimerStartTimes s' = internalTimerStartTimes s"
  by (induction ls arbitrary: acc s)
     (auto split: prod.splits dest: getTasksFromList_registry)

lemma walk_folders_registry:
  "walk_folders R space uid fs acc s = (e, a, s') \<Longrightarrow>
     internalTimerStartTimes s' = internalTimerStartTimes s"
  by (induction fs arbitrary: acc s)
     (auto split: prod.splits sum.splits dest!: issue_registry walk_lists_registry)

lemma walk_space_registry:
  "walk_space R uid space acc s = (a, s') \<Longrightarrow>
     internalTimerStartTimes s' = internalTimerStartTimes s"
  by (auto simp: walk_space_def split: prod.splits sum.splits option.splits
      dest!: issue_registry walk_lists_registry walk_folders_registry)

lemma walk_spaces_registry:
  "walk_spaces R uid sps acc s = (a, s') \<Longrightarrow>
     internalTimerStartTimes s' = internalTimerStartTimes s"
  by (induction sps arbitrary: acc s)
     (auto split: prod.splits dest: walk_space_registry)

lemma getInProgressTasks_reconciles:
  assumes "getInProgressTasks cfg R s = (Inr ts, s')"
  shows "\<exists>now filtered. reconcile (tracked_in_run cfg R s) now filtered (internalTimerStartTimes s)
           = (ts, internalTimerStartTimes s')"
proof -
  from assms obtain client s0 where c: "getApiClient cfg s = (Some client, s0)"
    and t: "getInProgressTasks_try cfg R s0 = (Inr ts, s')"
    by (auto simp: getInProgressTasks_def split: prod.splits option.splits sum.splits
        failure.splits if_splits)
  from t obtain team s1 uid s2 cur s3 spaces s4 tasks s5 filtered reg where
    steps: "targetTeamId cfg R s0 = (Inr team, s1)" "getCurrentUserId R s1 = (Inr uid, s2)"
      "getCurrentTimeEntryTaskId R team s2 = (cur, s3)"
      "issue (GET_spaces team) (r_spaces R team) s3 = (Inr spaces, s4)"
      "walk_spaces R uid (case spaces of None \<Rightarrow> [] | Some sp \<Rightarrow> sp) [] s4 = (tasks, s5)"
      "reconcile cur (clock s5) (filterTasks uid (inProgressStatuses_of (inProgressStatuses cfg)) tasks)
         (internalTimerStartTimes s5) = (ts, reg)"
      "s' = s5\<lparr>internalTimerStartTimes := reg\<rparr>"
    by (auto simp: getInProgressTasks_try_def split: prod.splits sum.splits)
  have cur: "tracked_in_run cfg R s = cur"
    using c steps(1-3) by (simp add: tracked_in_run_def)
  have "internalTimerStartTimes s5 = internalTimerStartTimes s"
    using getApiClient_registry[OF c] targetTeamId_registry[OF steps(1)]
      getCurrentUserId_registry[OF steps(2)] getCurrentTimeEntryTaskId_registry[OF steps(3)]
      issue_registry[OF steps(4)] walk_spaces_registry[OF steps(5)]
    by simp
  with steps(6,7) cur show ?thesis by auto
qed

text \<open>
  Claim C2. A run of getInProgressTasks that returns its tasks leaves at most one entry
  in the registry; the key of an entry left is the identifier that the current-timer
  query of this run returned; and when that query returned none, the registry is empty.
  The registry is a Map, so its keys are distinct at the start.
\<close>

theorem reconciliation_invariant:
  assumes "distinct (timer_keys (internalTimerStartTimes s))"
    and "getInProgressTasks cfg R s = (Inr ts, s')"
  shows "timer_size (internalTimerStartTimes s') \<le> 1 \<and>
         (\<forall>k \<in> set (timer_keys (internalTimerStartTimes s')). tracked_in_run cfg R s = Some k) \<and>
         (\<not> present (tracked_in_run cfg R s) \<longrightarrow> internalTimerStartTimes s' = [])"
proof -
  from getInProgressTasks_reconciles[OF assms(2)] obtain now filtered where
    "reconcile (tracked_in_run cfg R s) now filtered (internalTimerStartTimes s)
       = (ts, internalTimerStartTimes s')"
    by blast
  from reconcile_registry[OF assms(1) this] show ?thesis .
qed

theorem reconciliation_invariant_witness:
  "distinct (timer_keys [(''B'', 5)]) \<and>
   (\<exists>ts. fst (getInProgressTasks sample_config workspace_remote
                (service_with [(''B'', 5)] (Some ''A''))) = Inr ts) \<and>
   timer_size (internalTimerStartTimes (snd (getInProgressTasks sample_config workspace_remote
                (service_with [(''B'', 5)] (Some ''A''))))) \<le> 1 \<and>
   timer_keys (internalTimerStartTimes (snd (getInProgressTasks sample_config workspace_remote
                (service_with [(''B'', 5)] (Some ''A''))))) = [''A''] \<and>
   tracked_in_run sample_config workspace_remote (service_with [(''B'', 5)] (Some ''A'')) = Some ''A''"
proof -
  let ?s = "service_with [(''B'', 5)] (Some ''A'') :: string option service"
  have d: "distinct (timer_keys (internalTimerStartTimes ?s))"
    by (simp add: timer_keys_def service_with_def)
  from reconciliation_invariant[OF d workspace_run] workspace_tracked show ?thesis
    by (simp add: workspace_run timer_keys_def)
qed

section \<open>Pagination (getTasksFromList)\<close>

lemma fetch_pages_unfold:
  assumes "issue (GET_list_tasks l page a) (r_list_tasks R l page a) s = (rep, s1)"
  shows "fetch_pages R l a page acc s =
     (case rep of
        Inl e \<Rightarrow> (Inl e, s1)
      | Inr body \<Rightarrow>
          (let tasks = (case body of None \<Rightarrow> [] | Some ts \<Rightarrow> ts)
           in if page + 1 > 100
              then (Inr (acc @ tasks), s1\<lparr>warnings := warnings s1 @ [limit_warning l]\<rparr>)
              else if length tasks = pageSize then fetch_pages R l a (page + 1) (acc @ tasks) s1
              else (Inr (acc @ tasks), s1)))"
  using assms by (subst fetch_pages.simps) (simp add: limit_warning_def Let_def split: sum.splits)

lemma fetch_pages_static:
  assumes st: "\<forall>p r. r_list_tasks R l p a r = (Inr (Some (pg p)), r)"
    and full: "\<forall>p. k \<le> p \<and> p < N \<longrightarrow> length (pg p) = 100"
    and last: "length (pg N) \<noteq> 100 \<or> N = 100"
    and le: "k \<le> N" "N \<le> 100"
  shows "fetch_pages R l a k acc s =
           (Inr (acc @ concat (map pg [k..<Suc N])),
            s\<lparr>requests := requests s @ map (\<lambda>p. GET_list_tasks l p a) [k..<Suc N],
              warnings := warnings s @ (if N = 100 then [limit_warning l] else [])\<rparr>)"
  using full le
proof (induction "N - k" arbitrary: k acc s)
  case 0
  then have k: "k = N" by simp
  have i: "issue (GET_list_tasks l N a) (r_list_tasks R l N a) s =
             (Inr (Some (pg N)), s\<lparr>requests := requests s @ [GET_list_tasks l N a]\<rparr>)"
    by (simp add: issue_def st)
  show ?case
    using last \<open>N \<le> 100\<close>
    by (auto simp: k fetch_pages_unfold[OF i] pageSize_def Let_def)
next
  case (Suc d)
  then have lt: "k < N" and d: "d = N - Suc k" by auto
  with Suc.prems have len: "length (pg k) = 100" by auto
  have IH: "fetch_pages R l a (Suc k) acc' s' =
           (Inr (acc' @ concat (map pg [Suc k..<Suc N])),
            s'\<lparr>requests := requests s' @ map (\<lambda>p. GET_list_tasks l p a) [Suc k..<Suc N],
              warnings := warnings s' @ (if N = 100 then [limit_warning l] else [])\<rparr>)" for acc' s'
    using Suc.hyps(1)[OF d] Suc.prems lt by auto
  have upt: "[k..<Suc N] = k # [Suc k..<Suc N]"
    using lt by (simp add: upt_conv_Cons)
  have i: "issue (GET_list_tasks l k a) (r_list_tasks R l k a) s =
             (Inr (Some (pg k)), s\<lparr>requests := requests s @ [GET_list_tasks l k a]\<rparr>)"
    by (simp add: issue_def st)
  have "fetch_pages R l a k acc s = fetch_pages R l a (Suc k) (acc @ pg k)
          (s\<lparr>requests := requests s @ [GET_list_tasks l k a]\<rparr>)"
    using lt \<open>N \<le> 100\<close> by (simp add: fetch_pages_unfold[OF i] pageSize_def len)
  then show ?case
    unfolding IH upt by simp
qed

lemma fetch_pages_bound:
  "length (requests (snd (fetch_pages R l a page acc s))) \<le> length (requests s) + max 1 (101 - page)"
proof (induction R l a page acc s rule: fetch_pages.induct)
  case (1 R listId assignee page allTasks s)
  obtain rep s1 where i: "issue (GET_list_tasks listId page assignee)
      (r_list_tasks R listId page assignee) s = (rep, s1)"
    by (cases "issue (GET_list_tasks listId page assignee) (r_list_tasks R listId page assignee) s") auto
  then have r1: "length (requests s1) = length (requests s) + 1"
    by (auto simp: issue_def split: prod.splits)
  show ?case
  proof (cases rep)
    case (Inl e)
    with r1 show ?thesis
      by (simp add: fetch_pages_unfold[OF i])
  next
    case (Inr body)
    with r1 "1.IH"[OF i[symmetric] Inr refl refl] show ?thesis
      by (auto simp add: fetch_pages_unfold[OF i] Let_def)
  qed
qed

text \<open>
  Claim C3, as the code has it. Against a remote that serves the pages \<open>pg\<close> of a list, of
  which the first \<open>N \<le> 100\<close> are full (100 tasks) and page \<open>N\<close> is short, or is page 100
  of any size, getTasksFromList requests the pages 0 to \<open>N\<close> in order, \<open>N + 1\<close> requests,
  and returns their tasks; it logs the warning exactly when page 100 was requested.
  Against any remote at all it issues at most 101 requests for a list.
\<close>

theorem pagination_terminates:
  assumes "\<forall>p r. r_list_tasks R l p a r = (Inr (Some (pg p)), r)"
    and "a = (if uid \<noteq> [] then Some uid else None)"
    and "N \<le> 100"
    and "\<forall>p<N. length (pg p) = 100"
    and "length (pg N) \<noteq> 100 \<or> N = 100"
  shows "getTasksFromList R l space uid s =
           (process_tasks space (concat (map pg [0..<Suc N])),
            s\<lparr>requests := requests s @ map (\<lambda>p. GET_list_tasks l p a) [0..<Suc N],
              warnings := warnings s @ (if N = 100 then [limit_warning l] else [])\<rparr>) \<and>
         (\<forall>R' s'. length (requests (snd (getTasksFromList R' l space uid s')))
                    \<le> length (requests s') + 101)"
proof -
  have "fetch_pages R l a 0 [] s =
           (Inr ([] @ concat (map pg [0..<Suc N])),
            s\<lparr>requests := requests s @ map (\<lambda>p. GET_list_tasks l p a) [0..<Suc N],
              warnings := warnings s @ (if N = 100 then [limit_warning l] else [])\<rparr>)"
    using assms(4) by (intro fetch_pages_static[OF assms(1) _ assms(5) _ assms(3)]) auto
  then have run: "getTasksFromList R l space uid s =
           (process_tasks space (concat (map pg [0..<Suc N])),
            s\<lparr>requests := requests s @ map (\<lambda>p. GET_list_tasks l p a) [0..<Suc N],
              warnings := warnings s @ (if N = 100 then [limit_warning l] else [])\<rparr>)"
    by (simp add: getTasksFromList_def assms(2))
  have "length (requests (snd (getTasksFromList R' l space uid s'))) \<le> length (requests s') + 101"
    for R' s'
    using fetch_pages_bound[of R' l "if uid \<noteq> [] then Some uid else None" 0 "[]" s']
    by (auto simp: getTasksFromList_def split: prod.splits sum.splits)
  with run show ?thesis by blast
qed

theorem pagination_terminates_witness:
  "getTasksFromList (paged_remote (\<lambda>p. if p = 0 then full_page else [])) ''L1''
      \<lparr>ref_id = ''S1'', ref_name = ''Space''\<rparr> ''7'' (service_with [] ()) =
     (process_tasks \<lparr>ref_id = ''S1'', ref_name = ''Space''\<rparr> full_page,
      (service_with [] ())
        \<lparr>requests := [GET_list_tasks ''L1'' 0 (Some ''7''), GET_list_tasks ''L1'' 1 (Some ''7'')]\<rparr>)"
proof -
  let ?pg = "\<lambda>p::nat. if p = 0 then full_page else []"
  have 1: "\<forall>p r. r_list_tasks (paged_remote ?pg) ''L1'' p (Some ''7'') r = (Inr (Some (?pg p)), r)"
    by (simp add: paged_remote_def quiet_remote_def)
  have 2: "Some ''7'' = (if ''7'' \<noteq> [] then Some ''7'' else None)"
    by simp
  have 3: "(1::nat) \<le> 100"
    by simp
  have 4: "\<forall>p<1. length (?pg p) = 100"
    by (simp add: full_page_def)
  have 5: "length (?pg 1) \<noteq> 100 \<or> (1::nat) = 100"
    by simp
  from pagination_terminates[OF 1 2 3 4 5, of "\<lparr>ref_id = ''S1'', ref_name = ''Space''\<rparr>" "service_with [] ()"]
  have "getTasksFromList (paged_remote ?pg) ''L1'' \<lparr>ref_id = ''S1'', ref_name = ''Space''\<rparr> ''7''
          (service_with [] ()) =
        (process_tasks \<lparr>ref_id = ''S1'', ref_name = ''Space''\<rparr> (concat (map ?pg [0..<Suc 1])),
         (service_with [] ())
           \<lparr>requests := requests (service_with [] ()) @
                map (\<lambda>p. GET_list_tasks ''L1'' p (Some ''7'')) [0..<Suc 1],
             warnings := warnings (service_with [] ()) @
                (if (1::nat) = 100 then [limit_warning ''L1''] else [])\<rparr>)"
    by (rule conjunct1)
  then show ?thesis
    by (simp add: service_with_def)
qed

text \<open>
  A list of 101 full pages followed by an empty one: the rule of \<open>N + 1\<close> requests asks
  for 102 requests and a ceiling of 100 pages allows 100; the code requests the pages 0
  to 100, which are 101, and logs the warning.
\<close>

theorem pagination_ceiling_counterexample:
  "requests (snd (getTasksFromList (paged_remote overfull_pages) ''L1''
      \<lparr>ref_id = ''S1'', ref_name = ''Space''\<rparr> ''7'' (service_with [] ()))) =
     page_requests ''L1'' (Some ''7'') 101 \<and>
   length (requests (snd (getTasksFromList (paged_remote overfull_pages) ''L1''
      \<lparr>ref_id = ''S1'', ref_name = ''Space''\<rparr> ''7'' (service_with [] ())))) = 101 \<and>
   warnings (snd (getTasksFromList (paged_remote overfull_pages) ''L1''
      \<lparr>ref_id = ''S1'', ref_name = ''Space''\<rparr> ''7'' (service_with [] ()))) = [limit_warning ''L1'']"
proof -
  have st: "\<forall>p r. r_list_tasks (paged_remote overfull_pages) ''L1'' p (Some ''7'') r =
              (Inr (Some (overfull_pages p)), r)"
    by (simp add: paged_remote_def quiet_remote_def)
  have "fetch_pages (paged_remote overfull_pages) ''L1'' (Some ''7'') 0 [] (service_with [] ()) =
          (Inr ([] @ concat (map overfull_pages [0..<Suc 100])),
           (service_with [] ())
             \<lparr>requests := requests (service_with [] ()) @
                  map (\<lambda>p. GET_list_tasks ''L1'' p (Some ''7'')) [0..<Suc 100],
               warnings := warnings (service_with [] ()) @
                  (if (100::nat) = 100 then [limit_warning ''L1''] else [])\<rparr>)"
    by (rule fetch_pages_static[OF st]) (auto simp: overfull_pages_def full_page_def)
  then show ?thesis
    by (simp add: getTasksFromList_def service_with_def page_requests_def del: upt_Suc)
qed

section \<open>Duplicates (getTasksFromList and the walk)\<close>

text \<open>
  Within one list every identifier is kept once, at its first occurrence, main task or
  sub-item, and stamped with the space of the list.
\<close>

lemma push_unprocessed_inv:
  assumes "push_unprocessed space t (ps, ids) = (ps', ids')"
    and "ids = set (map task_id ps)" and "distinct (map task_id ps)"
  shows "ids' = set (map task_id ps') \<and> distinct (map task_id ps') \<and>
         set (map task_id ps') = insert (task_id t) (set (map task_id ps)) \<and>
         (\<forall>p \<in> set ps'. p \<in> set ps \<or> space_ref p = Some space)"
  using assms by (cases space) (auto simp: stamp_def split: if_splits)

lemma fold_push_unprocessed_inv:
  assumes "fold (push_unprocessed space) ts (ps, ids) = (ps', ids')"
    and "ids = set (map task_id ps)" and "distinct (map task_id ps)"
  shows "ids' = set (map task_id ps') \<and> distinct (map task_id ps') \<and>
         set (map task_id ps') = set (map task_id ts) \<union> set (map task_id ps) \<and>
         (\<forall>p \<in> set ps'. p \<in> set ps \<or> space_ref p = Some space)"
  using assms
proof (induction ts arbitrary: ps ids)
  case Nil
  then show ?case by auto
next
  case (Cons t ts)
  obtain ps1 ids1 where p: "push_unprocessed space t (ps, ids) = (ps1, ids1)"
    by (cases "push_unprocessed space t (ps, ids)") auto
  from push_unprocessed_inv[OF p Cons.prems(2,3)]
  have 1: "ids1 = set (map task_id ps1)" "distinct (map task_id ps1)"
    "set (map task_id ps1) = insert (task_id t) (set (map task_id ps))"
    "\<forall>p \<in> set ps1. p \<in> set ps \<or> space_ref p = Some space"
    by auto
  from Cons.prems(1) p have "fold (push_unprocessed space) ts (ps1, ids1) = (ps', ids')"
    by simp
  from Cons.IH[OF this 1(1,2)] 1(3,4) show ?case
    by auto
qed

lemma process_task_inv:
  assumes "process_task space a (ps, ids) = (ps', ids')"
    and "ids = set (map task_id ps)" and "distinct (map task_id ps)"
  shows "ids' = set (map task_id ps') \<and> distinct (map task_id ps') \<and>
         set (map task_id ps') = set (ids_of a) \<union> set (map task_id ps) \<and>
         (\<forall>p \<in> set ps'. p \<in> set ps \<or> space_ref p = Some space)"
proof (cases a)
  case (ApiTask t subs)
  have "fold (push_unprocessed space) (t # (case subs of None \<Rightarrow> [] | Some ss \<Rightarrow> ss)) (ps, ids) = (ps', ids')"
    using assms(1) ApiTask by simp
  from fold_push_unprocessed_inv[OF this assms(2,3)] ApiTask show ?thesis
    by auto
qed

lemma fold_process_task_inv:
  assumes "fold (process_task space) as (ps, ids) = (ps', ids')"
    and "ids = set (map task_id ps)" and "distinct (map task_id ps)"
  shows "ids' = set (map task_id ps') \<and> distinct (map task_id ps') \<and>
         set (map task_id ps') = set (concat (map ids_of as)) \<union> set (map task_id ps) \<and>
         (\<forall>p \<in> set ps'. p \<in> set ps \<or> space_ref p = Some space)"
  using assms
proof (induction as arbitrary: ps ids)
  case Nil
  then show ?case by auto
next
  case (Cons a as)
  obtain ps1 ids1 where p: "process_task space a (ps, ids) = (ps1, ids1)"
    by (cases "process_task space a (ps, ids)") auto
  from process_task_inv[OF p Cons.prems(2,3)]
  have 1: "ids1 = set (map task_id ps1)" "distinct (map task_id ps1)"
    "set (map task_id ps1) = set (ids_of a) \<union> set (map task_id ps)"
    "\<forall>p \<in> set ps1. p \<in> set ps \<or> space_ref p = Some space"
    by auto
  from Cons.prems(1) p have "fold (process_task space) as (ps1, ids1) = (ps', ids')"
    by simp
  from Cons.IH[OF this 1(1,2)] 1(3,4) show ?case
    by auto
qed

lemma process_tasks_unique:
  "distinct (map task_id (process_tasks space as)) \<and>
   set (map task_id (process_tasks space as)) = set (concat (map ids_of as)) \<and>
   (\<forall>p \<in> set (process_tasks space as). space_ref p = Some space)"
proof -
  obtain ps' ids' where f: "fold (process_task space) as ([], {}) = (ps', ids')"
    by (cases "fold (process_task space) as ([], {})") auto
  from fold_process_task_inv[OF f] f show ?thesis
    by (auto simp: process_tasks_def)
qed

text \<open>
  Claim C1, at a walk over two lists that both return task A (a folder list and a
  folder-less list of one space): the set of processed identifiers is made anew for
  every list, so the walk returns task A once per list.
\<close>

theorem walk_returns_shared_task_twice:
  "fst (getInProgressTasks sample_config workspace_remote (service_with [(''B'', 5)] (Some ''A''))) =
     Inr [seen_in_space\<lparr>isCurrentlyTracked := Some True\<rparr>,
          seen_in_space\<lparr>isCurrentlyTracked := Some True\<rparr>] \<and>
   task_id seen_in_space = ''A''"
  by (simp add: workspace_run seen_in_space_def stamp_def sample_task_def)

section \<open>The filter (getInProgressTasks)\<close>

lemma assigneeId_of_shapes:
  assumes "truthy v"
  shows "assigneeId_of \<lparr>a_id = Some v, a_user_id = x, a_user_id_flat = y\<rparr> = js_String v"
    and "assigneeId_of \<lparr>a_id = None, a_user_id = Some v, a_user_id_flat = y\<rparr> = js_String v"
    and "assigneeId_of \<lparr>a_id = None, a_user_id = None, a_user_id_flat = Some v\<rparr> = js_String v"
  using assms by (simp_all add: assigneeId_of_def)

lemma isAssignedToMe_iff:
  "isAssignedToMe uid t \<longleftrightarrow> (\<exists>as a. assignees t = Some as \<and> a \<in> set as \<and> assigneeId_of a = uid)"
  by (cases "assignees t") (auto simp: isAssignedToMe_def assigneeIds_def list_ex_iff)

lemma filterTasks_iff:
  "t \<in> set (filterTasks uid sts ts) \<longleftrightarrow> t \<in> set ts \<and> isAssignedToMe uid t \<and> status_matches sts t"
  by (auto simp: filterTasks_def task_passes_def)

lemma getCurrentUserId_fresh:
  "\<not> present (currentUserId s) \<Longrightarrow> r_user R (remote_state s) = (Inr v, r') \<Longrightarrow>
     fst (getCurrentUserId R s) = Inr (js_String v)"
  by (simp add: getCurrentUserId_def issue_def)

text \<open>
  Claim C7. A task is assigned to the current user exactly when one of its assignees,
  normalized, equals the user's identifier. The normal form of an assignee is the
  rendering of the first truthy one of \<open>id\<close>, \<open>user.id\<close>, \<open>user_id\<close>, so each of the three
  shapes yields the rendering of its identifier; the user's identifier is the rendering
  of the identifier that \<open>GET /user\<close> returns; and a task that is not assigned is not
  in the filtered result, whatever the status set.
\<close>

theorem assignment_test:
  "(isAssignedToMe uid t \<longleftrightarrow>
      (\<exists>as a. assignees t = Some as \<and> a \<in> set as \<and> assigneeId_of a = uid)) \<and>
   (truthy v \<longrightarrow>
      assigneeId_of \<lparr>a_id = Some v, a_user_id = x, a_user_id_flat = y\<rparr> = js_String v \<and>
      assigneeId_of \<lparr>a_id = None, a_user_id = Some v, a_user_id_flat = y\<rparr> = js_String v \<and>
      assigneeId_of \<lparr>a_id = None, a_user_id = None, a_user_id_flat = Some v\<rparr> = js_String v) \<and>
   (\<not> present (currentUserId s) \<and> r_user R (remote_state s) = (Inr v, r') \<longrightarrow>
      fst (getCurrentUserId R s) = Inr (js_String v)) \<and>
   (\<not> isAssignedToMe uid t \<longrightarrow> t \<notin> set (filterTasks uid sts ts))"
proof -
  have "\<not> isAssignedToMe uid t \<longrightarrow> t \<notin> set (filterTasks uid sts ts)"
    by (simp add: filterTasks_iff)
  moreover have "\<not> present (currentUserId s) \<and> r_user R (remote_state s) = (Inr v, r') \<longrightarrow>
      fst (getCurrentUserId R s) = Inr (js_String v)"
    by (simp add: getCurrentUserId_fresh)
  ultimately show ?thesis
    using isAssignedToMe_iff[of uid t] assigneeId_of_shapes by simp
qed

theorem assignment_test_witness:
  "truthy (IdNum 7) \<and>
   isAssignedToMe ''7'' (assigned_by \<lparr>a_id = Some (IdNum 7), a_user_id = None, a_user_id_flat = None\<rparr>) \<and>
   isAssignedToMe ''7'' (assigned_by \<lparr>a_id = None, a_user_id = Some (IdNum 7), a_user_id_flat = None\<rparr>) \<and>
   isAssignedToMe ''7'' (assigned_by \<lparr>a_id = None, a_user_id = None, a_user_id_flat = Some (IdNum 7)\<rparr>) \<and>
   \<not> isAssignedToMe ''7'' (assigned_by \<lparr>a_id = Some (IdNum 8), a_user_id = Some (IdNum 7), a_user_id_flat = None\<rparr>) \<and>
   assigned_by \<lparr>a_id = Some (IdNum 8), a_user_id = Some (IdNum 7), a_user_id_flat = None\<rparr>
     \<notin> set (filterTasks ''7'' (inProgressStatuses_of None)
          [assigned_by \<lparr>a_id = Some (IdNum 8), a_user_id = Some (IdNum 7), a_user_id_flat = None\<rparr>])"
proof -
  have s8: "string_of_nat 8 = ''8''" by code_simp
  have t: "truthy (IdNum 7)" by simp
  have n: "\<not> isAssignedToMe ''7'' (assigned_by \<lparr>a_id = Some (IdNum 8), a_user_id = Some (IdNum 7), a_user_id_flat = None\<rparr>)"
    by (simp add: isAssignedToMe_def assigneeIds_def assigneeId_of_def assigned_by_def s8)
  note a = assignment_test[of "''7''" _ "IdNum 7" None None "service_with [] ()" quiet_remote "()"]
  from a[of "assigned_by \<lparr>a_id = Some (IdNum 8), a_user_id = Some (IdNum 7), a_user_id_flat = None\<rparr>"
      "inProgressStatuses_of None"
      "[assigned_by \<lparr>a_id = Some (IdNum 8), a_user_id = Some (IdNum 7), a_user_id_flat = None\<rparr>]"] n
  have out: "assigned_by \<lparr>a_id = Some (IdNum 8), a_user_id = Some (IdNum 7), a_user_id_flat = None\<rparr>
     \<notin> set (filterTasks ''7'' (inProgressStatuses_of None)
          [assigned_by \<lparr>a_id = Some (IdNum 8), a_user_id = Some (IdNum 7), a_user_id_flat = None\<rparr>])"
    by blast
  have "isAssignedToMe ''7'' (assigned_by b)" if "assigneeId_of b = ''7''" for b
    using that a[of "assigned_by b" "[]" "[]"] by (auto simp: assigned_by_def)
  with t n out show ?thesis
    by (simp add: assigneeId_of_def string_of_nat_7)
qed

lemma status_matches_iff:
  "status t \<noteq> [] \<Longrightarrow>
     status_matches (inProgressStatuses_of configured) t \<longleftrightarrow>
       trim (toLowerCase (status t)) \<in>
         set (map toLowerCase (case configured of None \<Rightarrow> defaultStatuses | Some ss \<Rightarrow> ss))"
  by (simp add: status_matches_def statusValue_def inProgressStatuses_of_def)

lemma padded_status_normal: "trim (toLowerCase '' In Progress '') = ''in progress''"
  by code_simp

lemma in_progress_lower: "toLowerCase ''in progress'' = ''in progress''"
  by code_simp

lemma object_status_normal: "trim (toLowerCase ''[object Object]'') = ''[object object]''"
  by code_simp

lemma empty_status_normal: "toLowerCase [] = [] \<and> trim [] = []"
  by (simp add: trim_def toLowerCase_def)

text \<open>
  A task whose status label is not empty passes the status test exactly when the label,
  lower-cased and trimmed, is among the configured statuses, each lower-cased (the
  default being the four listed); the label \<open>" In Progress "\<close> matches the configured
  \<open>"in progress"\<close>; and a task is returned by the filter exactly when it passes both the
  assignment test and the status test.
\<close>

lemma status_test_nonempty:
  "(status t \<noteq> [] \<longrightarrow>
      (status_matches (inProgressStatuses_of configured) t \<longleftrightarrow>
         trim (toLowerCase (status t)) \<in>
           set (map toLowerCase (case configured of None \<Rightarrow> defaultStatuses | Some ss \<Rightarrow> ss)))) \<and>
   defaultStatuses = [''in progress'', ''active'', ''working'', ''in-progress''] \<and>
   status_matches (inProgressStatuses_of (Some [''in progress''])) (t\<lparr>status := '' In Progress ''\<rparr>) \<and>
   (t \<in> set (filterTasks uid sts ts) \<longleftrightarrow>
      t \<in> set ts \<and> isAssignedToMe uid t \<and> status_matches sts t)"
  using status_matches_iff[of t configured] filterTasks_iff[of t uid sts ts]
  by (simp add: defaultStatuses_def status_matches_def statusValue_def inProgressStatuses_of_def
      padded_status_normal in_progress_lower)

lemma sample_task_passes:
  "status (sample_task ''A'') \<noteq> [] \<and>
   status_matches (inProgressStatuses_of None) (sample_task ''A'') \<and>
   sample_task ''A'' \<in> set (filterTasks ''7'' (inProgressStatuses_of None) [sample_task ''A''])"
proof -
  have ne: "status (sample_task ''A'') \<noteq> []"
    by (simp add: sample_task_def)
  have m: "trim (toLowerCase (status (sample_task ''A''))) \<in> set (inProgressStatuses_of None)"
    by (simp add: sample_task_def sample_status_normal default_statuses_lower)
  have a: "isAssignedToMe ''7'' (sample_task ''A'')"
    by (simp add: isAssignedToMe_def assigneeIds_def assigneeId_of_def sample_task_def string_of_nat_7)
  from status_test_nonempty[of "sample_task ''A''" None "''7''" "inProgressStatuses_of None" "[sample_task ''A'']"]
    ne m a
  show ?thesis
    by (simp add: inProgressStatuses_of_def)
qed

text \<open>
  Claim C6 asks that a task passes the status test if and only if its status label,
  lower-cased and trimmed, is among the configured statuses, each lower-cased. The code
  reads the label as \<open>task.status?.status || task.status || ''\<close>, so for a task whose
  label is the empty string it takes the status object instead and compares
  \<open>[object object]\<close>. With the empty string among the configured statuses, the task
  below, assigned to user 7, has a label that is a member of the configured set; it
  fails the status test all the same, and the filter drops it.
\<close>

theorem empty_status_label_fails_test:
  "trim (toLowerCase (status ((sample_task ''A'')\<lparr>status := []\<rparr>))) \<in> set (map toLowerCase [[]]) \<and>
   statusValue ((sample_task ''A'')\<lparr>status := []\<rparr>) = ''[object Object]'' \<and>
   \<not> status_matches (inProgressStatuses_of (Some [[]])) ((sample_task ''A'')\<lparr>status := []\<rparr>) \<and>
   isAssignedToMe ''7'' ((sample_task ''A'')\<lparr>status := []\<rparr>) \<and>
   filterTasks ''7'' (inProgressStatuses_of (Some [[]])) [(sample_task ''A'')\<lparr>status := []\<rparr>] = []"
  by (simp add: filterTasks_def task_passes_def status_matches_def statusValue_def
      inProgressStatuses_of_def empty_status_normal object_status_normal
      isAssignedToMe_def assigneeIds_def assigneeId_of_def sample_task_def string_of_nat_7)

section \<open>stopTimeTracking\<close>

lemma getCurrentTimeEntryTaskId_requests:
  "requests (snd (getCurrentTimeEntryTaskId R team s)) = requests s @ [GET_current team]"
  by (auto simp: getCurrentTimeEntryTaskId_def issue_def
      split: prod.splits sum.splits option.splits failure.splits)

lemma getCurrentTimeEntryTaskId_present:
  "getCurrentTimeEntryTaskId R team s = (Some t, s') \<Longrightarrow> t \<noteq> []"
  by (auto simp: getCurrentTimeEntryTaskId_def issue_def js_String_truthy
      split: prod.splits sum.splits option.splits failure.splits if_splits)

lemma timer_size_0: "timer_size reg = 0 \<longleftrightarrow> reg = []"
  by (simp add: timer_size_def)

text \<open>
  Claim C5. With a credential and a team, stopTimeTracking asks for the current timer
  and only then posts the stop. When the stop is accepted it returns the identifier that
  the query resolved, and the registry has lost the entry of that identifier, or all its
  entries when none was resolved. When the stop is answered with 400 or 404 it returns
  no identifier, raises nothing and leaves the registry as it was.
\<close>

theorem stop_resolves_then_stops:
  assumes cred: "getApiClient cfg s = (Some client, s0)"
    and team: "targetTeamId cfg R s0 = (Inr team, s1)"
    and cur: "getCurrentTimeEntryTaskId R team s1 = (tracked, s2)"
    and stop: "r_stop R team (remote_state s2) = (reply, r3)"
  shows "requests (snd (stopTimeTracking cfg R s)) = requests s1 @ [GET_current team, POST_stop team] \<and>
         (reply = Inr () \<longrightarrow>
            fst (stopTimeTracking cfg R s) = Inr tracked \<and>
            internalTimerStartTimes (snd (stopTimeTracking cfg R s)) =
              (case tracked of
                 Some t \<Rightarrow> timer_delete t (internalTimerStartTimes s)
               | None \<Rightarrow> [])) \<and>
         (\<forall>st err m. reply = Inl (Http st err m) \<and> (st = 400 \<or> st = 404) \<longrightarrow>
            fst (stopTimeTracking cfg R s) = Inr None \<and>
            internalTimerStartTimes (snd (stopTimeTracking cfg R s)) = internalTimerStartTimes s)"
proof -
  have rq2: "requests s2 = requests s1 @ [GET_current team]"
    using getCurrentTimeEntryTaskId_requests[of R team s1] cur by simp
  have reg2: "internalTimerStartTimes s2 = internalTimerStartTimes s"
    using getApiClient_registry[OF cred] targetTeamId_registry[OF team]
      getCurrentTimeEntryTaskId_registry[OF cur] by simp
  have i: "issue (POST_stop team) (r_stop R team) s2 =
             (reply, s2\<lparr>remote_state := r3, requests := requests s2 @ [POST_stop team]\<rparr>)"
    using stop by (simp add: issue_def)
  have ne: "t \<noteq> []" if "tracked = Some t" for t
    using cur that getCurrentTimeEntryTaskId_present by blast
  show ?thesis
  proof (cases reply)
    case (Inr u)
    then show ?thesis
      using cred team cur i rq2 reg2 ne
      by (cases tracked)
         (auto simp: stopTimeTracking_def stopTimeTracking_try_def timer_size_0)
  next
    case (Inl e)
    then show ?thesis
      using cred team cur i rq2 reg2
      by (cases e) (auto simp: stopTimeTracking_def stopTimeTracking_try_def)
  qed
qed


theorem stop_resolves_then_stops_witness:
  "fst (stopTimeTracking sample_config timer_remote (service_with [(''A'', 5), (''B'', 6)] (Some ''A'')))
     = Inr (Some ''A'') \<and>
   internalTimerStartTimes
     (snd (stopTimeTracking sample_config timer_remote (service_with [(''A'', 5), (''B'', 6)] (Some ''A''))))
     = [(''B'', 6)] \<and>
   requests
     (snd (stopTimeTracking sample_config timer_remote (service_with [(''A'', 5), (''B'', 6)] (Some ''A''))))
     = [GET_team, GET_current ''T1'', POST_stop ''T1'']"
proof -
  let ?s = "service_with [(''A'', 5), (''B'', 6)] (Some ''A'') :: string option service"
  let ?sa = "snd (getApiClient sample_config ?s)"
  let ?sb = "snd (targetTeamId sample_config timer_remote ?sa)"
  let ?sc = "snd (getCurrentTimeEntryTaskId timer_remote ''T1'' ?sb)"
  have cred: "getApiClient sample_config ?s = (Some (axios_create ''pk_1''), ?sa)"
    by (simp add: sample_defs service_defs Let_def)
  have team: "targetTeamId sample_config timer_remote ?sa = (Inr ''T1'', ?sb)"
    by (simp add: sample_defs service_defs Let_def)
  have cur: "getCurrentTimeEntryTaskId timer_remote ''T1'' ?sb = (Some ''A'', ?sc)"
    by (simp add: sample_defs service_defs Let_def)
  have stop: "r_stop timer_remote ''T1'' (remote_state ?sc) = (Inr (), None)"
    by (simp add: sample_defs)
  have rq: "requests ?sb = [GET_team]"
    by (simp add: sample_defs service_defs Let_def)
  from stop_resolves_then_stops[OF cred team cur stop] rq show ?thesis
    by (simp add: service_with_def timer_delete_def)
qed

section \<open>Missing credential, and failures of the current-timer query\<close>

lemma getApiClient_None_iff:
  "fst (getApiClient cfg s) = None \<longleftrightarrow>
     apiToken cfg = [] \<and> \<not> present (env_CLICKUP_API_KEY cfg) \<and> \<not> present (env_CLICKUP_API_TOKEN cfg)"
  by (cases "env_CLICKUP_API_KEY cfg"; cases "env_CLICKUP_API_TOKEN cfg"; cases "apiClient s")
     (auto simp: getApiClient_def env_token_def Let_def)

lemma getApiClient_None:
  "fst (getApiClient cfg s) = None \<Longrightarrow> getApiClient cfg s = (None, s)"
  by (auto simp: getApiClient_def Let_def split: if_splits)

text \<open>
  The service only ever holds clients made by \<open>axios.create\<close>, so every call made with a
  token makes a new client and forgets the cached user identifier.
\<close>

lemma getApiClient_recreates:
  assumes "fst (getApiClient cfg s) \<noteq> None"
    and "\<forall>c. apiClient s = Some c \<longrightarrow> (\<exists>token. c = axios_create token)"
  shows "\<exists>token. getApiClient cfg s =
           (Some (axios_create token), s\<lparr>apiClient := Some (axios_create token), currentUserId := None\<rparr>)"
  using assms
  by (cases "apiClient s") (auto simp: getApiClient_def axios_create_def Let_def split: if_splits)

lemma getCurrentTimeEntryTaskId_failure:
  assumes "r_current R team (remote_state s) = (Inl e, r')"
  shows "getCurrentTimeEntryTaskId R team s =
           (None, s\<lparr>remote_state := r', requests := requests s @ [GET_current team],
                    warnings := (if benign e then warnings s
                                 else warnings s @ [''Warning: Could not get current time entry: '' @ error_message e])\<rparr>)"
  using assms
  by (cases e) (auto simp: getCurrentTimeEntryTaskId_def issue_def benign_def)

text \<open>
  With a credential the debug walks never throw: whatever happens inside is logged.
\<close>

lemma debug_walks_swallow:
  "fst (getApiClient cfg s) \<noteq> None \<Longrightarrow>
     fst (debugListAllMyTasks cfg R s) = Inr () \<and> fst (debugFetchRawTasks cfg R s) = Inr ()"
  by (cases "getApiClient cfg s")
     (auto simp: debugListAllMyTasks_def debugFetchRawTasks_def split: option.splits)

text \<open>
  Claim C8, as the code has it. Without a credential in the settings or in either
  environment variable, every public operation that contacts the remote service, which
  are startTimeTracking, stopTimeTracking, getTask, getInProgressTasks,
  debugListAllMyTasks and debugFetchRawTasks, fails with the configuration error before
  any request. When the current-timer request fails, the query returns no identifier and
  raises nothing, whatever the failure: in silence on 400 and 404, and with a warning in
  the log on any other failure.
\<close>

theorem credential_and_current_timer:
  "(apiToken cfg = [] \<and> \<not> present (env_CLICKUP_API_KEY cfg) \<and> \<not> present (env_CLICKUP_API_TOKEN cfg) \<longrightarrow>
      startTimeTracking (Suc n) cfg R taskId s = Some (Inl notConfigured, s) \<and>
      stopTimeTracking cfg R s = (Inl notConfigured, s) \<and>
      getTask cfg R taskId s = (Inl notConfigured, s) \<and>
      getInProgressTasks cfg R s = (Inl notConfigured, s) \<and>
      debugListAllMyTasks cfg R s = (Inl notConfigured, s) \<and>
      debugFetchRawTasks cfg R s = (Inl notConfigured, s)) \<and>
   (r_current R team (remote_state s) = (Inl e, r') \<longrightarrow>
      getCurrentTimeEntryTaskId R team s =
        (None, s\<lparr>remote_state := r', requests := requests s @ [GET_current team],
                 warnings := (if benign e then warnings s
                              else warnings s @ [''Warning: Could not get current time entry: '' @ error_message e])\<rparr>))"
proof -
  have "getApiClient cfg s = (None, s)"
    if "apiToken cfg = [] \<and> \<not> present (env_CLICKUP_API_KEY cfg) \<and> \<not> present (env_CLICKUP_API_TOKEN cfg)"
    using that getApiClient_None_iff[of cfg s] getApiClient_None[of cfg s] by simp
  then show ?thesis
    using getCurrentTimeEntryTaskId_failure[of R team s e r']
    by (auto simp: stopTimeTracking_def getTask_def getInProgressTasks_def
        debugListAllMyTasks_def debugFetchRawTasks_def)
qed

theorem credential_and_current_timer_witness:
  "apiToken no_credential = [] \<and> \<not> present (env_CLICKUP_API_KEY no_credential) \<and>
   \<not> present (env_CLICKUP_API_TOKEN no_credential) \<and>
   startTimeTracking (Suc 0) no_credential quiet_remote ''A'' (service_with [] ()) =
     Some (Inl notConfigured, service_with [] ()) \<and>
   stopTimeTracking no_credential quiet_remote (service_with [] ()) =
     (Inl notConfigured, service_with [] ()) \<and>
   getTask no_credential quiet_remote ''A'' (service_with [] ()) =
     (Inl notConfigured, service_with [] ()) \<and>
   getInProgressTasks no_credential quiet_remote (service_with [] ()) =
     (Inl notConfigured, service_with [] ()) \<and>
   debugListAllMyTasks no_credential quiet_remote (service_with [] ()) =
     (Inl notConfigured, service_with [] ()) \<and>
   debugFetchRawTasks no_credential quiet_remote (service_with [] ()) =
     (Inl notConfigured, service_with [] ()) \<and>
   r_current quiet_remote ''T1'' (remote_state (service_with [] ())) = (Inl not_found, ()) \<and>
   getCurrentTimeEntryTaskId quiet_remote ''T1'' (service_with [] ()) =
     (None, (service_with [] ())\<lparr>requests := [GET_current ''T1'']\<rparr>)"
proof -
  have c: "apiToken no_credential = [] \<and> \<not> present (env_CLICKUP_API_KEY no_credential) \<and>
           \<not> present (env_CLICKUP_API_TOKEN no_credential)"
    by (simp add: no_credential_def)
  have r: "r_current quiet_remote ''T1'' (remote_state (service_with [] ())) = (Inl not_found, ())"
    by (simp add: quiet_remote_def)
  have b: "benign not_found"
    by (simp add: benign_def not_found_def)
  from credential_and_current_timer[of no_credential 0 quiet_remote "''A''" "service_with [] ()"
      "''T1''" not_found "()"] c r b
  show ?thesis
    by (simp add: service_with_def)
qed

text \<open>
  The current-timer query answered with status 500: the query returns no identifier and
  logs a warning, and stopTimeTracking, which calls it, returns without an error. The
  registry accessors, public as well, read no credential and answer from the registry.
\<close>

theorem current_timer_error_counterexample:
  "getCurrentTimeEntryTaskId broken_current ''T1'' (service_with [] ()) =
     (None, (service_with [] ())
        \<lparr>requests := [GET_current ''T1''],
         warnings := [''Warning: Could not get current time entry: Request failed with status code 500'']\<rparr>) \<and>
   fst (stopTimeTracking sample_config broken_current (service_with [] ())) = Inr None \<and>
   fst (getInProgressTasks sample_config broken_current (service_with [] ())) = Inr [] \<and>
   isInternallyTracked (service_with [(''A'', 5)] ()) ''A'' \<and>
   getInternalTimerElapsed (service_with [(''A'', 5)] ()) ''A'' = 995 \<and>
   internalTimerStartTimes (clearInternalTimer ''A'' (service_with [(''A'', 5)] ())) = []"
  by (simp add: broken_current_def sample_defs service_defs walk_defs stopTimeTracking_def
      stopTimeTracking_try_def Let_def string_of_nat_7 default_statuses_lower
      isInternallyTracked_def getInternalTimerElapsed_def clearInternalTimer_def)

text \<open>
  The debug walks against the sample workspace: debugListAllMyTasks asks for the tasks
  of the team and then for every page of every list, closed tasks included in the lists
  of folders; debugFetchRawTasks asks for the details of each list and for its pages
  filtered by assignee.
\<close>

lemma debug_walk_requests:
  "debugListAllMyTasks sample_config workspace_remote (service_with [] None) =
     (Inr (),
      \<lparr>apiClient = Some (axios_create ''pk_1''), currentUserId = Some ''7'',
       internalTimerStartTimes = [], remote_state = None, clock = 1000,
       requests =
         [GET_user, GET_team, GET_team_tasks ''T1'' ''7'', GET_spaces ''T1'', GET_folders ''S1'',
          GET_folder_lists ''F1'', GET_list_tasks_flat True ''L1'' 0 None, GET_space_lists ''S1'',
          GET_list_tasks_flat False ''L2'' 0 None],
       warnings = []\<rparr>) \<and>
   debugFetchRawTasks sample_config workspace_remote (service_with [] None) =
     (Inr (),
      \<lparr>apiClient = Some (axios_create ''pk_1''), currentUserId = Some ''7'',
       internalTimerStartTimes = [], remote_state = None, clock = 1000,
       requests =
         [GET_user, GET_team, GET_spaces ''T1'', GET_folders ''S1'', GET_folder_lists ''F1'',
          GET_list ''L1'', GET_list_tasks_flat False ''L1'' 0 (Some ''7''), GET_space_lists ''S1'',
          GET_list ''L2'', GET_list_tasks_flat False ''L2'' 0 (Some ''7'')],
       warnings = []\<rparr>)"
  by (simp add: debugListAllMyTasks_def debugListAllMyTasks_try_def debugFetchRawTasks_def
      debugFetchRawTasks_try_def debug_space_def all_tasks_of_list_def raw_folder_list_def
      raw_space_list_def debug_pages.simps pageSize_def sample_defs service_defs
      string_of_nat_7 Let_def)

section \<open>startTimeTracking\<close>

lemma issue_requests: "issue rq f s = (a, s') \<Longrightarrow> requests s' = requests s @ [rq]"
  by (auto simp: issue_def split: prod.splits)

lemma issue_clock: "issue rq f s = (a, s') \<Longrightarrow> clock s' = clock s"
  by (auto simp: issue_def split: prod.splits)

lemma getApiClient_requests: "getApiClient cfg s = (c, s') \<Longrightarrow> requests s' = requests s \<and> clock s' = clock s"
  by (auto simp: getApiClient_def Let_def split: if_splits)

lemma targetTeamId_requests:
  "targetTeamId cfg R s = (a, s') \<Longrightarrow> requests s' = requests s @ [GET_team] \<and> clock s' = clock s"
  by (auto simp: targetTeamId_def issue_def split: prod.splits sum.splits option.splits list.splits)

lemma timer_delete_subset: "p \<in> set (timer_delete k reg) \<Longrightarrow> p \<in> set reg"
  by (auto simp: timer_delete_def AList.delete_eq)

lemma stopTimeTracking_try_effect:
  assumes "stopTimeTracking_try cfg R s = (r, s')"
  shows "set (internalTimerStartTimes s') \<subseteq> set (internalTimerStartTimes s) \<and>
         (\<exists>new. requests s' = requests s @ new \<and>
            (internalTimerStartTimes s' \<noteq> internalTimerStartTimes s \<longrightarrow> (\<exists>team. POST_stop team \<in> set new)))"
proof -
  obtain a s1 where t: "targetTeamId cfg R s = (a, s1)"
    by (cases "targetTeamId cfg R s") auto
  note t1 = targetTeamId_registry[OF t] targetTeamId_requests[OF t]
  show ?thesis
  proof (cases a)
    case (Inl e)
    with assms t t1 show ?thesis
      by (auto simp: stopTimeTracking_try_def)
  next
    case (Inr team)
    obtain cur s2 where c: "getCurrentTimeEntryTaskId R team s1 = (cur, s2)"
      by (cases "getCurrentTimeEntryTaskId R team s1") auto
    have c1: "internalTimerStartTimes s2 = internalTimerStartTimes s"
      "requests s2 = requests s @ [GET_team, GET_current team]"
      using getCurrentTimeEntryTaskId_registry[OF c] getCurrentTimeEntryTaskId_requests[of R team s1] c t1
      by auto
    obtain rep s3 where i: "issue (POST_stop team) (r_stop R team) s2 = (rep, s3)"
      by (cases "issue (POST_stop team) (r_stop R team) s2") auto
    have i1: "internalTimerStartTimes s3 = internalTimerStartTimes s"
      "requests s3 = requests s @ [GET_team, GET_current team, POST_stop team]"
      using issue_registry[OF i] issue_requests[OF i] c1 by auto
    from assms t Inr c i i1 show ?thesis
      by (auto simp: stopTimeTracking_try_def split: sum.splits option.splits if_splits
          dest: timer_delete_subset)
  qed
qed

lemma stopTimeTracking_effect:
  assumes "stopTimeTracking cfg R s = (r, s')"
  shows "set (internalTimerStartTimes s') \<subseteq> set (internalTimerStartTimes s) \<and>
         (\<exists>new. requests s' = requests s @ new \<and>
            (internalTimerStartTimes s' \<noteq> internalTimerStartTimes s \<longrightarrow> (\<exists>team. POST_stop team \<in> set new)))"
proof -
  obtain c s0 where g: "getApiClient cfg s = (c, s0)"
    by (cases "getApiClient cfg s") auto
  note g1 = getApiClient_registry[OF g] getApiClient_requests[OF g]
  show ?thesis
  proof (cases c)
    case None
    with assms g g1 show ?thesis by (auto simp: stopTimeTracking_def)
  next
    case (Some client)
    obtain a s1 where t: "stopTimeTracking_try cfg R s0 = (a, s1)"
      by (cases "stopTimeTracking_try cfg R s0") auto
    from assms g Some t have "s' = s1"
      by (auto simp: stopTimeTracking_def split: sum.splits failure.splits if_splits)
    with stopTimeTracking_try_effect[OF t] g1 show ?thesis by simp
  qed
qed

lemma startTimeTracking_try_effect:
  assumes "startTimeTracking_try cfg R taskId s = (r, s')"
  shows "(\<exists>new. requests s' = requests s @ new) \<and>
         (case r of
            Inl e \<Rightarrow> internalTimerStartTimes s' = internalTimerStartTimes s
          | Inr u \<Rightarrow> internalTimerStartTimes s' = timer_set taskId (clock s) (internalTimerStartTimes s))"
proof -
  obtain a s1 where t: "targetTeamId cfg R s = (a, s1)"
    by (cases "targetTeamId cfg R s") auto
  note t1 = targetTeamId_registry[OF t] targetTeamId_requests[OF t]
  show ?thesis
  proof (cases a)
    case (Inl e)
    with assms t t1 show ?thesis
      by (auto simp: startTimeTracking_try_def)
  next
    case (Inr team)
    obtain rep s2 where i: "issue (POST_start team taskId) (r_start R team taskId) s1 = (rep, s2)"
      by (cases "issue (POST_start team taskId) (r_start R team taskId) s1") auto
    from assms t Inr i issue_registry[OF i] issue_requests[OF i] issue_clock[OF i] t1 show ?thesis
      by (auto simp: startTimeTracking_try_def split: sum.splits)
  qed
qed

text \<open>
  Claim C10, as the code has it. When a call of startTimeTracking throws, every entry
  of the registry afterwards was there before with the same start instant: nothing has
  been inserted. The registry is exactly as it was unless a stop request has been
  issued during the call, that is, unless the call went through the recovery.
\<close>

theorem failed_start_inserts_nothing:
  assumes "startTimeTracking n cfg R taskId s = Some (Inl e, s')"
  shows "set (internalTimerStartTimes s') \<subseteq> set (internalTimerStartTimes s) \<and>
         (\<exists>new. requests s' = requests s @ new \<and>
            (internalTimerStartTimes s' \<noteq> internalTimerStartTimes s \<longrightarrow> (\<exists>team. POST_stop team \<in> set new)))"
  using assms
proof (induction n arbitrary: s)
  case 0
  then show ?case by simp
next
  case (Suc n)
  obtain c s0 where g: "getApiClient cfg s = (c, s0)"
    by (cases "getApiClient cfg s") auto
  note g1 = getApiClient_registry[OF g] getApiClient_requests[OF g]
  show ?case
  proof (cases c)
    case None
    with Suc.prems g g1 show ?thesis by auto
  next
    case (Some client)
    obtain a s1 where t: "startTimeTracking_try cfg R taskId s0 = (a, s1)"
      by (cases "startTimeTracking_try cfg R taskId s0") auto
    from startTimeTracking_try_effect[OF t] g1 obtain new1 where
      rq1: "requests s1 = requests s @ new1"
      by auto
    from startTimeTracking_try_effect[OF t] g1
    have reg1: "a = Inl f \<Longrightarrow> internalTimerStartTimes s1 = internalTimerStartTimes s" for f
      by auto
    show ?thesis
    proof (cases a)
      case (Inr u)
      with Suc.prems g Some t show ?thesis by simp
    next
      case (Inl f)
      with reg1 have same: "internalTimerStartTimes s1 = internalTimerStartTimes s" by blast
      show ?thesis
      proof (cases "\<exists>st err m. f = Http st err m \<and> st = 400 \<and>
                      includes_str (errorMessage_of (Http st err m)) ''already running''")
        case False
        with Suc.prems g Some t Inl have "s' = s1"
          by (cases f) (auto split: if_splits)
        with same rq1 show ?thesis by auto
      next
        case True
        then obtain st err m where f: "f = Http st err m" "st = 400"
          "includes_str (errorMessage_of (Http st err m)) ''already running''" by blast
        obtain b s2 where sp: "stopTimeTracking cfg R s1 = (b, s2)"
          by (cases "stopTimeTracking cfg R s1") auto
        from stopTimeTracking_effect[OF sp] same rq1 obtain new2 where
          sub2: "set (internalTimerStartTimes s2) \<subseteq> set (internalTimerStartTimes s)"
          and rq2: "requests s2 = requests s @ new1 @ new2"
          and ch2: "internalTimerStartTimes s2 \<noteq> internalTimerStartTimes s \<longrightarrow> (\<exists>team. POST_stop team \<in> set new2)"
          by auto
        show ?thesis
        proof (cases b)
          case (Inl e2)
          with Suc.prems g Some t \<open>a = Inl f\<close> f sp have "s' = s2" by simp
          with sub2 rq2 ch2 show ?thesis by auto
        next
          case (Inr stopped)
          with Suc.prems g Some t \<open>a = Inl f\<close> f sp
          have "startTimeTracking n cfg R taskId s2 = Some (Inl e, s')" by simp
          from Suc.IH[OF this] obtain new3 where
            sub3: "set (internalTimerStartTimes s') \<subseteq> set (internalTimerStartTimes s2)"
            and rq3: "requests s' = requests s2 @ new3"
            and ch3: "internalTimerStartTimes s' \<noteq> internalTimerStartTimes s2 \<longrightarrow> (\<exists>team. POST_stop team \<in> set new3)"
            by auto
          have "requests s' = requests s @ (new1 @ new2 @ new3)"
            using rq2 rq3 by simp
          moreover have "internalTimerStartTimes s' \<noteq> internalTimerStartTimes s \<longrightarrow>
              (\<exists>team. POST_stop team \<in> set (new1 @ new2 @ new3))"
            using ch2 ch3 by auto
          ultimately show ?thesis
            using sub2 sub3 by blast
        qed
      qed
    qed
  qed
qed


lemma already_running_detected: "includes_str ''Timer is already running'' ''already running''"
  by code_simp

lemmas start_defs = startTimeTracking_try_def stopTimeTracking_def stopTimeTracking_try_def

lemma failing_retry_run:
  "startTimeTracking (Suc (Suc 0)) sample_config failing_retry ''B'' (service_with [(''A'', 5)] (Some ''A'')) =
     Some (Inl (Other ''Failed to start time tracking: Internal error''),
           \<lparr>apiClient = Some (axios_create ''pk_1''), currentUserId = None, internalTimerStartTimes = [],
            remote_state = None, clock = 1000,
            requests = [GET_team, POST_start ''T1'' ''B'', GET_team, GET_current ''T1'',
                        POST_stop ''T1'', GET_team, POST_start ''T1'' ''B''],
            warnings = []\<rparr>)"
  by (simp add: failing_retry_def sample_defs service_defs start_defs Let_def
      already_running_detected timer_delete_def)

theorem failed_start_inserts_nothing_witness:
  "startTimeTracking (Suc (Suc 0)) sample_config failing_retry ''B'' (service_with [(''A'', 5)] (Some ''A'')) =
     Some (Inl (Other ''Failed to start time tracking: Internal error''),
           \<lparr>apiClient = Some (axios_create ''pk_1''), currentUserId = None, internalTimerStartTimes = [],
            remote_state = None, clock = 1000,
            requests = [GET_team, POST_start ''T1'' ''B'', GET_team, GET_current ''T1'',
                        POST_stop ''T1'', GET_team, POST_start ''T1'' ''B''],
            warnings = []\<rparr>) \<and>
   set ([] :: registry) \<subseteq> set [(''A'', 5)] \<and>
   POST_stop ''T1'' \<in> set [GET_team, POST_start ''T1'' ''B'', GET_team, GET_current ''T1'',
                        POST_stop ''T1'', GET_team, POST_start ''T1'' ''B'']"
proof -
  from failed_start_inserts_nothing[OF failing_retry_run]
  have "set ([] :: registry) \<subseteq> set (internalTimerStartTimes (service_with [(''A'', 5)] (Some ''A'')))"
    by simp
  then have "set ([] :: registry) \<subseteq> set [(''A'', 5)]"
    by (simp add: service_with_def)
  moreover have "POST_stop ''T1'' \<in> set [GET_team, POST_start ''T1'' ''B'', GET_team, GET_current ''T1'',
                        POST_stop ''T1'', GET_team, POST_start ''T1'' ''B'']"
    by simp
  ultimately show ?thesis
    using failing_retry_run by blast
qed

text \<open>
  Task A is tracked, here and remotely; the remote refuses to start B while A runs, and
  after the stop it fails to start B with status 500. The call throws, and the entry of
  A is gone.
\<close>

theorem failed_start_registry_counterexample:
  "startTimeTracking (Suc (Suc 0)) sample_config failing_retry ''B'' (service_with [(''A'', 5)] (Some ''A'')) =
     Some (Inl (Other ''Failed to start time tracking: Internal error''),
           \<lparr>apiClient = Some (axios_create ''pk_1''), currentUserId = None, internalTimerStartTimes = [],
            remote_state = None, clock = 1000,
            requests = [GET_team, POST_start ''T1'' ''B'', GET_team, GET_current ''T1'',
                        POST_stop ''T1'', GET_team, POST_start ''T1'' ''B''],
            warnings = []\<rparr>) \<and>
   internalTimerStartTimes (service_with [(''A'', 5)] (Some ''A'')) = [(''A'', 5)] \<and>
   [(''A'', 5)] \<noteq> ([] :: registry)"
proof -
  have "internalTimerStartTimes (service_with [(''A'', 5)] (Some ''A'')) = [(''A'', 5)]"
    by (simp add: service_with_def)
  moreover have "[(''A'', 5)] \<noteq> ([] :: registry)"
    by simp
  ultimately show ?thesis
    using failing_retry_run by blast
qed

lemma startTimeTracking_more_fuel:
  "startTimeTracking n cfg R taskId s = Some r \<Longrightarrow> startTimeTracking (n + k) cfg R taskId s = Some r"
proof (induction n arbitrary: s)
  case 0
  then show ?case by simp
next
  case (Suc n)
  then show ?case
    by (auto split: prod.splits option.splits sum.splits failure.splits if_splits)
qed

text \<open>
  Start then switch, against a remote that runs one timer at a time: starting \<open>b\<close> while
  \<open>a\<close> is tracked stops \<open>a\<close> first and ends with the registry holding exactly \<open>b\<close>, for
  any number of nested calls allowed from two on.
\<close>

lemma timer_scenario:
  "startTimeTracking (Suc (Suc k)) sample_config timer_remote b (service_with [(a, t0)] (Some a)) =
     Some (Inr (),
           \<lparr>apiClient = Some (axios_create ''pk_1''), currentUserId = None, internalTimerStartTimes = [(b, 1000)],
            remote_state = Some b, clock = 1000,
            requests = [GET_team, POST_start ''T1'' b, GET_team, GET_current ''T1'',
                        POST_stop ''T1'', GET_team, POST_start ''T1'' b],
            warnings = []\<rparr>)"
proof -
  have "startTimeTracking (Suc (Suc 0)) sample_config timer_remote b (service_with [(a, t0)] (Some a)) =
     Some (Inr (),
           \<lparr>apiClient = Some (axios_create ''pk_1''), currentUserId = None, internalTimerStartTimes = [(b, 1000)],
            remote_state = Some b, clock = 1000,
            requests = [GET_team, POST_start ''T1'' b, GET_team, GET_current ''T1'',
                        POST_stop ''T1'', GET_team, POST_start ''T1'' b],
            warnings = []\<rparr>)"
      by (cases "a = []")
       (simp_all add: sample_defs service_defs start_defs Let_def
          already_running_detected timer_delete_def timer_set_def timer_size_def)
  from startTimeTracking_more_fuel[OF this, of k] show ?thesis
    by simp
qed

text \<open>
  The first attempt of a call made with a credential. An accepted start request ends the
  call with the entry of the task in the registry, its start instant being now. A
  failure other than the refusal \<open>already running\<close> is thrown to the caller and leaves
  the registry alone.
\<close>

lemma startTimeTracking_first_attempt:
  assumes "getApiClient cfg s = (Some client, s0)"
    and "startTimeTracking_try cfg R taskId s0 = (outcome, s1)"
  shows "(outcome = Inr () \<longrightarrow>
            startTimeTracking (Suc n) cfg R taskId s = Some (Inr (), s1) \<and>
            internalTimerStartTimes s1 = timer_set taskId (clock s) (internalTimerStartTimes s)) \<and>
         (\<forall>st err m. outcome = Inl (Http st err m) \<and>
              \<not> (st = 400 \<and> includes_str (errorMessage_of (Http st err m)) ''already running'') \<longrightarrow>
            startTimeTracking (Suc n) cfg R taskId s =
              Some (Inl (Other (''Failed to start time tracking: '' @ errorMessage_of (Http st err m))), s1) \<and>
            internalTimerStartTimes s1 = internalTimerStartTimes s) \<and>
         (\<forall>m. outcome = Inl (Other m) \<longrightarrow>
            startTimeTracking (Suc n) cfg R taskId s = Some (Inl (Other m), s1) \<and>
            internalTimerStartTimes s1 = internalTimerStartTimes s)"
proof -
  note g = getApiClient_registry[OF assms(1)] getApiClient_requests[OF assms(1)]
  from startTimeTracking_try_effect[OF assms(2)] g
  have reg: "case outcome of
               Inl e \<Rightarrow> internalTimerStartTimes s1 = internalTimerStartTimes s
             | Inr u \<Rightarrow> internalTimerStartTimes s1 = timer_set taskId (clock s) (internalTimerStartTimes s)"
    by (cases outcome) auto
  show ?thesis
  proof (cases outcome)
    case (Inr u)
    with assms reg show ?thesis by simp
  next
    case (Inl f)
    with assms reg show ?thesis
      by (cases f) (simp_all split: prod.splits sum.splits)
  qed
qed

text \<open>
  A remote that refuses the first two start requests as already running: the start is
  requested three times, with a stop before each retry, and the call succeeds.
\<close>

lemma refuse_twice_run:
  "startTimeTracking (Suc (Suc (Suc 0))) sample_config refuse_twice ''B'' (service_with [] 0) =
     Some (Inr (),
           \<lparr>apiClient = Some (axios_create ''pk_1''), currentUserId = None, internalTimerStartTimes = [(''B'', 1000)],
            remote_state = 2, clock = 1000,
            requests = [GET_team, POST_start ''T1'' ''B'',
                        GET_team, GET_current ''T1'', POST_stop ''T1'',
                        GET_team, POST_start ''T1'' ''B'',
                        GET_team, GET_current ''T1'', POST_stop ''T1'',
                        GET_team, POST_start ''T1'' ''B''],
            warnings = []\<rparr>)"
  by (simp add: refuse_twice_def sample_defs service_defs start_defs Let_def
      already_running_detected timer_set_def timer_size_def)

text \<open>
  When every start request is refused as already running and stopTimeTracking never
  throws, each call ends in a call of itself: the operation returns within no number of
  nested calls.
\<close>

lemma retry_forever:
  fixes R :: "'r remote"
  assumes cred: "\<And>s :: 'r service. fst (getApiClient cfg s) \<noteq> None"
    and refused: "\<And>s. fst (startTimeTracking_try cfg R taskId s) = Inl already_running"
    and stopped: "\<And>s. \<exists>r. fst (stopTimeTracking cfg R s) = Inr r"
  shows "startTimeTracking n cfg R taskId s = None"
proof (induction n arbitrary: s)
  case 0
  then show ?case by simp
next
  case (Suc n)
  from cred[of s] obtain c s0 where g: "getApiClient cfg s = (Some c, s0)"
    by (cases "getApiClient cfg s") auto
  from refused[of s0] obtain s1 where t: "startTimeTracking_try cfg R taskId s0 = (Inl already_running, s1)"
    by (cases "startTimeTracking_try cfg R taskId s0") auto
  from stopped[of s1] obtain r s2 where st: "stopTimeTracking cfg R s1 = (Inr r, s2)"
    by (cases "stopTimeTracking cfg R s1") auto
  have "startTimeTracking (Suc n) cfg R taskId s = startTimeTracking n cfg R taskId s2"
    using g t st by (simp add: already_running_def already_running_detected)
  with Suc.IH show ?case by simp
qed

lemma sample_credential: "fst (getApiClient sample_config s) \<noteq> None"
  by (simp add: getApiClient_None_iff sample_config_def)

lemma stubborn_refuses:
  "fst (startTimeTracking_try sample_config stubborn taskId s) = Inl already_running"
  by (simp add: stubborn_def sample_defs service_defs start_defs Let_def)

lemma stubborn_stops: "\<exists>r. fst (stopTimeTracking sample_config stubborn s) = Inr r"
  by (cases "apiClient s")
     (simp_all add: stubborn_def sample_defs service_defs start_defs Let_def)

lemma unstoppable_refuses:
  "fst (startTimeTracking_try sample_config unstoppable taskId s) = Inl already_running"
  by (simp add: unstoppable_def sample_defs service_defs start_defs Let_def)

lemma unstoppable_stops: "\<exists>r. fst (stopTimeTracking sample_config unstoppable s) = Inr r"
  by (cases "apiClient s")
     (simp_all add: unstoppable_def sample_defs service_defs start_defs Let_def)

text \<open>
  Claim C4 asks that startTimeTracking, refused with status 400 and a message containing
  \<open>already running\<close>, stops the running timer and retries the start exactly once, any
  other failure being surfaced. The code retries by calling itself, so a refused retry
  is followed by another stop and another retry. Against a remote that refuses every
  start request as already running, the call returns within no number of nested calls,
  whether the stop in between is accepted (there being no timer to resolve) or answered
  with status 404, which stopTimeTracking takes for no timer running. Against a remote
  that refuses twice, the start is requested three times and the call succeeds where a
  single retry would have failed.
\<close>

theorem start_retry_never_gives_up:
  "startTimeTracking n sample_config stubborn ''B'' (service_with [] ()) = None \<and>
   startTimeTracking n sample_config unstoppable ''B'' (service_with [(''A'', 5)] ()) = None \<and>
   startTimeTracking (Suc (Suc (Suc 0))) sample_config refuse_twice ''B'' (service_with [] 0) =
     Some (Inr (),
           \<lparr>apiClient = Some (axios_create ''pk_1''), currentUserId = None, internalTimerStartTimes = [(''B'', 1000)],
            remote_state = 2, clock = 1000,
            requests = [GET_team, POST_start ''T1'' ''B'',
                        GET_team, GET_current ''T1'', POST_stop ''T1'',
                        GET_team, POST_start ''T1'' ''B'',
                        GET_team, GET_current ''T1'', POST_stop ''T1'',
                        GET_team, POST_start ''T1'' ''B''],
            warnings = []\<rparr>)"
  using retry_forever[OF sample_credential stubborn_refuses stubborn_stops]
    retry_forever[OF sample_credential unstoppable_refuses unstoppable_stops]
    refuse_twice_run
  by blast

section \<open>updateTask\<close>

lemma findIndex_Some:
  "findIndex P xs = Some i \<Longrightarrow> i < length xs \<and> P (xs ! i) \<and> (\<forall>j<i. \<not> P (xs ! j))"
proof (induction xs arbitrary: i)
  case Nil
  then show ?case by simp
next
  case (Cons x xs)
  show ?case
  proof (cases "P x")
    case True
    with Cons.prems show ?thesis by simp
  next
    case False
    with Cons.prems obtain k where k: "findIndex P xs = Some k" "i = Suc k"
      by auto
    from Cons.IH[OF k(1)] False k(2) show ?thesis
      by (auto simp: nth_Cons split: nat.splits)
  qed
qed

lemma findIndex_None: "findIndex P xs = None \<longleftrightarrow> (\<forall>x \<in> set xs. \<not> P x)"
  by (induction xs) auto

lemma keep_space:
  "space_ref t = None \<Longrightarrow>
     t\<lparr>list_ref := a, space_ref := None, isCurrentlyTracked := b\<rparr> =
     t\<lparr>list_ref := a, isCurrentlyTracked := b\<rparr>"
  by (cases t) simp

lemma getTask_registry:
  "getTask cfg R taskId s = (a, s') \<Longrightarrow> internalTimerStartTimes s' = internalTimerStartTimes s"
  by (auto simp: getTask_def split: prod.splits option.splits sum.splits failure.splits if_splits
      dest!: getApiClient_registry issue_registry)

lemma getTask_not_found:
  assumes "getApiClient cfg s = (Some client, s0)"
    and "r_task R taskId (remote_state s0) = (Inl (Http 404 err m), r1)"
  shows "fst (getTask cfg R taskId s) = Inr None"
  using assms by (simp add: getTask_def issue_def)

text \<open>
  updateTask follows the outcome of getTask. Not found: every entry with the identifier
  leaves the snapshot, and nothing is raised or shown. Found: the first snapshot entry
  with the identifier is replaced by the fetched task, which keeps the entry's list,
  keeps the entry's space when it has none of its own, and is flagged as currently
  tracked exactly when the registry has the identifier; a snapshot without the
  identifier stays as it is. Any failure of getTask: the full refresh runs.
\<close>

lemma updateTask_by_outcome:
  assumes "getTask cfg R taskId s = (outcome, s1)"
  shows "(outcome = Inr None \<longrightarrow>
            updateTask cfg R taskId p s =
              (p\<lparr>tasks := filter (\<lambda>t. task_id t \<noteq> taskId) (tasks p)\<rparr>, s1)) \<and>
         (\<forall>t i. outcome = Inr (Some t) \<and> findIndex (\<lambda>x. task_id x = taskId) (tasks p) = Some i \<longrightarrow>
            i < length (tasks p) \<and> task_id (tasks p ! i) = taskId \<and>
            (\<forall>j<i. task_id (tasks p ! j) \<noteq> taskId) \<and>
            updateTask cfg R taskId p s =
              (p\<lparr>tasks := (tasks p)
                  [i := t\<lparr>list_ref := list_ref (tasks p ! i),
                           space_ref := (if space_ref t = None then space_ref (tasks p ! i)
                                         else space_ref t),
                           isCurrentlyTracked :=
                             Some (timer_has (internalTimerStartTimes s) taskId)\<rparr>]\<rparr>, s1)) \<and>
         (\<forall>t. outcome = Inr (Some t) \<and> (\<forall>x \<in> set (tasks p). task_id x \<noteq> taskId) \<longrightarrow>
            updateTask cfg R taskId p s = (p, s1)) \<and>
         (\<forall>e. outcome = Inl e \<longrightarrow> updateTask cfg R taskId p s = refresh cfg R p s1)"
proof -
  have reg: "internalTimerStartTimes s1 = internalTimerStartTimes s"
    using getTask_registry[OF assms] .
  have found: "i < length (tasks p) \<and> task_id (tasks p ! i) = taskId \<and>
            (\<forall>j<i. task_id (tasks p ! j) \<noteq> taskId) \<and>
            updateTask cfg R taskId p s =
              (p\<lparr>tasks := (tasks p)
                  [i := t\<lparr>list_ref := list_ref (tasks p ! i),
                           space_ref := (if space_ref t = None then space_ref (tasks p ! i)
                                         else space_ref t),
                           isCurrentlyTracked :=
                             Some (timer_has (internalTimerStartTimes s) taskId)\<rparr>]\<rparr>, s1)"
    if "outcome = Inr (Some t)" and "findIndex (\<lambda>x. task_id x = taskId) (tasks p) = Some i" for t i
    using that assms reg findIndex_Some[OF that(2)]
    by (cases "space_ref (tasks p ! i)")
       (auto simp: updateTask_def isInternallyTracked_def Let_def keep_space)
  have absent: "updateTask cfg R taskId p s = (p, s1)"
    if "outcome = Inr (Some t)" and "\<forall>x \<in> set (tasks p). task_id x \<noteq> taskId" for t
  proof -
    from that(2) have "findIndex (\<lambda>x. task_id x = taskId) (tasks p) = None"
      by (simp add: findIndex_None)
    with that(1) assms show ?thesis
      by (simp add: updateTask_def)
  qed
  have gone: "updateTask cfg R taskId p s =
              (p\<lparr>tasks := filter (\<lambda>t. task_id t \<noteq> taskId) (tasks p)\<rparr>, s1)"
    if "outcome = Inr None"
    using that assms by (simp add: updateTask_def)
  have failed: "updateTask cfg R taskId p s = refresh cfg R p s1" if "outcome = Inl e" for e
    using that assms by (simp add: updateTask_def)
  from gone found absent failed show ?thesis
    by blast
qed

text \<open>
  What getTask makes of each reply of the remote: a task is returned with its tracked
  time filled in, status 404 is not found, and every other failure is thrown.
\<close>

lemma getTask_by_reply:
  assumes "getApiClient cfg s = (Some client, s0)"
    and "r_task R taskId (remote_state s0) = (reply, r1)"
  shows "getTask cfg R taskId s =
           (case reply of
              Inr t \<Rightarrow> Inr (Some (t\<lparr>timeTracked := Some (case time_spent t of None \<Rightarrow> 0 | Some n \<Rightarrow> n)\<rparr>))
            | Inl (Http st err m) \<Rightarrow> if st = 404 then Inr None else Inl (Http st err m)
            | Inl (Other m) \<Rightarrow> Inl (Other m),
            s0\<lparr>remote_state := r1, requests := requests s0 @ [GET_task taskId]\<rparr>)"
  using assms by (simp add: getTask_def issue_def split: sum.splits failure.splits)

text \<open>
  From the reply of the remote to the snapshot. On status 404 the entries with the
  identifier are removed. On any other failure, the snapshot becomes what
  getInProgressTasks returns, or stays and an error is shown when that fails as well.
  Without a credential no request is made and the same fallback runs.
\<close>

lemma updateTask_by_reply:
  assumes "getApiClient cfg s = (Some client, s0)"
    and "r_task R taskId (remote_state s0) = (reply, r1)"
    and "s1 = s0\<lparr>remote_state := r1, requests := requests s0 @ [GET_task taskId]\<rparr>"
  shows "(\<forall>err m. reply = Inl (Http 404 err m) \<longrightarrow>
            updateTask cfg R taskId p s =
              (p\<lparr>tasks := filter (\<lambda>t. task_id t \<noteq> taskId) (tasks p)\<rparr>, s1)) \<and>
         (\<forall>e. reply = Inl e \<and> (\<forall>err m. e \<noteq> Http 404 err m) \<longrightarrow>
            updateTask cfg R taskId p s =
              (case getInProgressTasks cfg R s1 of
                 (Inr ts, s2) \<Rightarrow> (p\<lparr>tasks := ts, loading := False\<rparr>, s2)
               | (Inl e', s2) \<Rightarrow>
                   (p\<lparr>loading := False,
                      shown_errors := shown_errors p @
                        [''Failed to load ClickUp tasks: '' @ error_message e']\<rparr>, s2))) \<and>
         (\<forall>t. reply = Inr t \<and> (\<forall>x \<in> set (tasks p). task_id x \<noteq> taskId) \<longrightarrow>
            updateTask cfg R taskId p s = (p, s1))"
proof -
  note g = getTask_by_reply[OF assms(1,2), folded assms(3)]
  have gone: "updateTask cfg R taskId p s =
              (p\<lparr>tasks := filter (\<lambda>t. task_id t \<noteq> taskId) (tasks p)\<rparr>, s1)"
    if "reply = Inl (Http 404 err m)" for err m
    using that g by (simp add: updateTask_def)
  have failed: "updateTask cfg R taskId p s =
              (case getInProgressTasks cfg R s1 of
                 (Inr ts, s2) \<Rightarrow> (p\<lparr>tasks := ts, loading := False\<rparr>, s2)
               | (Inl e', s2) \<Rightarrow>
                   (p\<lparr>loading := False,
                      shown_errors := shown_errors p @
                        [''Failed to load ClickUp tasks: '' @ error_message e']\<rparr>, s2))"
    if "reply = Inl e" and "\<forall>err m. e \<noteq> Http 404 err m" for e
    using that g by (cases e) (auto simp: updateTask_def refresh_def)
  have absent: "updateTask cfg R taskId p s = (p, s1)"
    if "reply = Inr t" and "\<forall>x \<in> set (tasks p). task_id x \<noteq> taskId" for t
  proof -
    from that(2) have "findIndex (\<lambda>x. task_id x = taskId) (tasks p) = None"
      by (simp add: findIndex_None)
    with that(1) g show ?thesis
      by (simp add: updateTask_def)
  qed
  from gone failed absent show ?thesis
    by blast
qed

lemma updateTask_no_credential:
  "fst (getApiClient cfg s) = None \<Longrightarrow>
     updateTask cfg R taskId p s =
       (p\<lparr>loading := False,
          shown_errors := shown_errors p @
            [''Failed to load ClickUp tasks: '' @ error_message notConfigured]\<rparr>, s)"
  by (auto simp: updateTask_def getTask_def refresh_def getInProgressTasks_def
      dest!: getApiClient_None)

lemmas task_defs = getTask_def snapshot_xy_def listed_task_def task_remote_def

text \<open>
  The deleted task: X is in the snapshot and the remote answers 404; X leaves the
  snapshot. The changed task: X is replaced in place and keeps its list and space.
\<close>

lemma snapshot_runs:
  "updateTask sample_config quiet_remote ''X'' snapshot_xy (service_with [] ()) =
     (snapshot_xy\<lparr>tasks := [listed_task ''Y'']\<rparr>,
      \<lparr>apiClient = Some (axios_create ''pk_1''), currentUserId = None, internalTimerStartTimes = [],
       remote_state = (), clock = 1000, requests = [GET_task ''X''], warnings = []\<rparr>) \<and>
   tasks (fst (updateTask sample_config task_remote ''X'' snapshot_xy (service_with [(''X'', 5)] ()))) =
     [(listed_task ''X'')\<lparr>status := ''Done'', timeTracked := Some 0, isCurrentlyTracked := Some True\<rparr>,
      listed_task ''Y'']"
  by (simp add: updateTask_def task_defs sample_defs service_defs isInternallyTracked_def
      timer_has_def Let_def)

text \<open>
  The failed fetch: the task endpoint answers 500, and the snapshot becomes the result
  of a full walk.
\<close>

lemma failed_fetch_refreshes:
  "updateTask sample_config task_down ''X'' snapshot_xy (service_with [(''B'', 5)] (Some ''A'')) =
     (\<lparr>tasks = [seen_in_space\<lparr>isCurrentlyTracked := Some True\<rparr>,
                 seen_in_space\<lparr>isCurrentlyTracked := Some True\<rparr>],
       loading = False, shown_errors = []\<rparr>,
      \<lparr>apiClient = Some (axios_create ''pk_1''), currentUserId = Some ''7'',
       internalTimerStartTimes = [(''A'', 1000)], remote_state = Some ''A'', clock = 1000,
       requests =
         [GET_task ''X'', GET_team, GET_user, GET_current ''T1'', GET_spaces ''T1'', GET_folders ''S1'',
          GET_folder_lists ''F1'', GET_list_tasks ''L1'' 0 (Some ''7''), GET_space_lists ''S1'',
          GET_list_tasks ''L2'' 0 (Some ''7'')],
       warnings = []\<rparr>)"
  by (simp add: updateTask_def refresh_def task_down_def task_defs sample_defs service_defs walk_defs
      seen_in_space_def string_of_nat_7 default_statuses_lower sample_status_normal Let_def)

lemma after_walk_run:
  "after_walk =
     (\<lparr>tasks = [seen_in_space\<lparr>isCurrentlyTracked := Some True\<rparr>,
                 seen_in_space\<lparr>isCurrentlyTracked := Some True\<rparr>],
       loading = False, shown_errors = []\<rparr>,
      \<lparr>apiClient = Some (axios_create ''pk_1''), currentUserId = Some ''7'',
       internalTimerStartTimes = [(''A'', 1000)], remote_state = Some ''A'', clock = 1000,
       requests =
         [GET_team, GET_user, GET_current ''T1'', GET_spaces ''T1'', GET_folders ''S1'',
          GET_folder_lists ''F1'', GET_list_tasks ''L1'' 0 (Some ''7''), GET_space_lists ''S1'',
          GET_list_tasks ''L2'' 0 (Some ''7'')],
       warnings = []\<rparr>)"
  by (simp add: after_walk_def refresh_def workspace_run)

text \<open>
  Claim C9 asks that a task found by the single-task refresh replaces the snapshot entry
  with the same identifier. The snapshot below is what a full refresh installs for the
  sample workspace, where task A is in two lists: it holds A twice. When A has since
  been set to Done and updateTask fetches it, the first entry of A is replaced and the
  second stays as it was, In Progress: findIndex finds one entry. When the remote
  answers 404 instead, \<open>filter\<close> removes both.
\<close>

theorem single_refresh_leaves_stale_copy:
  "tasks (fst after_walk) =
     [seen_in_space\<lparr>isCurrentlyTracked := Some True\<rparr>,
      seen_in_space\<lparr>isCurrentlyTracked := Some True\<rparr>] \<and>
   task_id seen_in_space = ''A'' \<and> status seen_in_space = ''In Progress'' \<and>
   tasks (fst (updateTask sample_config workspace_done ''A'' (fst after_walk) (snd after_walk))) =
     [seen_in_space\<lparr>status := ''Done'', timeTracked := Some 0, isCurrentlyTracked := Some True\<rparr>,
      seen_in_space\<lparr>isCurrentlyTracked := Some True\<rparr>] \<and>
   tasks (fst (updateTask sample_config workspace_remote ''A'' (fst after_walk) (snd after_walk))) = []"
  by (simp add: after_walk_run updateTask_def getTask_def workspace_done_def seen_in_space_def
      stamp_def sample_defs service_defs isInternallyTracked_def timer_has_def Let_def)

section \<open>The registry stays a map\<close>

text \<open>
  The keys of the registry are distinct in a new service object, whose registry is
  empty, and every operation that writes to the registry keeps them distinct.
\<close>

lemma stopTimeTracking_try_distinct:
  assumes "stopTimeTracking_try cfg R s = (r, s')"
    and "distinct (timer_keys (internalTimerStartTimes s))"
  shows "distinct (timer_keys (internalTimerStartTimes s'))"
proof -
  obtain a s1 where t: "targetTeamId cfg R s = (a, s1)"
    by (cases "targetTeamId cfg R s") auto
  note t1 = targetTeamId_registry[OF t]
  show ?thesis
  proof (cases a)
    case (Inl e)
    with assms t t1 show ?thesis
      by (auto simp: stopTimeTracking_try_def)
  next
    case (Inr team)
    obtain cur s2 where c: "getCurrentTimeEntryTaskId R team s1 = (cur, s2)"
      by (cases "getCurrentTimeEntryTaskId R team s1") auto
    obtain rep s3 where i: "issue (POST_stop team) (r_stop R team) s2 = (rep, s3)"
      by (cases "issue (POST_stop team) (r_stop R team) s2") auto
    have "internalTimerStartTimes s3 = internalTimerStartTimes s"
      using issue_registry[OF i] getCurrentTimeEntryTaskId_registry[OF c] t1 by simp
    with assms t Inr c i show ?thesis
      by (auto simp: stopTimeTracking_try_def distinct_timer_delete
          split: sum.splits option.splits if_splits)
         (simp_all add: timer_keys_def)
  qed
qed

lemma stopTimeTracking_distinct:
  assumes "stopTimeTracking cfg R s = (r, s')"
    and "distinct (timer_keys (internalTimerStartTimes s))"
  shows "distinct (timer_keys (internalTimerStartTimes s'))"
proof -
  obtain c s0 where g: "getApiClient cfg s = (c, s0)"
    by (cases "getApiClient cfg s") auto
  note g1 = getApiClient_registry[OF g]
  show ?thesis
  proof (cases c)
    case None
    with assms g g1 show ?thesis by (auto simp: stopTimeTracking_def)
  next
    case (Some client)
    obtain a s1 where t: "stopTimeTracking_try cfg R s0 = (a, s1)"
      by (cases "stopTimeTracking_try cfg R s0") auto
    from assms g Some t have "s' = s1"
      by (auto simp: stopTimeTracking_def split: sum.splits failure.splits if_splits)
    with stopTimeTracking_try_distinct[OF t] g1 assms(2) show ?thesis by simp
  qed
qed

lemma startTimeTracking_distinct:
  assumes "startTimeTracking n cfg R taskId s = Some (r, s')"
    and "distinct (timer_keys (internalTimerStartTimes s))"
  shows "distinct (timer_keys (internalTimerStartTimes s'))"
  using assms
proof (induction n arbitrary: s)
  case 0
  then show ?case by simp
next
  case (Suc n)
  obtain c s0 where g: "getApiClient cfg s = (c, s0)"
    by (cases "getApiClient cfg s") auto
  note g1 = getApiClient_registry[OF g] getApiClient_requests[OF g]
  show ?case
  proof (cases c)
    case None
    with Suc.prems g g1 show ?thesis by auto
  next
    case (Some client)
    obtain a s1 where t: "startTimeTracking_try cfg R taskId s0 = (a, s1)"
      by (cases "startTimeTracking_try cfg R taskId s0") auto
    from startTimeTracking_try_effect[OF t] g1 Suc.prems(2)
    have d1: "distinct (timer_keys (internalTimerStartTimes s1))"
      by (cases a) (auto simp: distinct_timer_set)
    show ?thesis
    proof (cases "\<exists>st err m. a = Inl (Http st err m) \<and> st = 400 \<and>
                    includes_str (errorMessage_of (Http st err m)) ''already running''")
      case False
      with Suc.prems(1) g Some t have "s' = s1"
        by (auto split: sum.splits failure.splits if_splits)
      with d1 show ?thesis by simp
    next
      case True
      then obtain st err m where f: "a = Inl (Http st err m)" "st = 400"
        "includes_str (errorMessage_of (Http st err m)) ''already running''" by blast
      obtain b s2 where sp: "stopTimeTracking cfg R s1 = (b, s2)"
        by (cases "stopTimeTracking cfg R s1") auto
      note d2 = stopTimeTracking_distinct[OF sp d1]
      show ?thesis
      proof (cases b)
        case (Inl e2)
        with Suc.prems(1) g Some t f sp have "s' = s2" by simp
        with d2 show ?thesis by simp
      next
        case (Inr stopped)
        with Suc.prems(1) g Some t f sp
        have "startTimeTracking n cfg R taskId s2 = Some (r, s')" by simp
        from Suc.IH[OF this d2] show ?thesis .
      qed
    qed
  qed
qed

lemma getInProgressTasks_failure_registry:
  "getInProgressTasks cfg R s = (Inl e, s') \<Longrightarrow> internalTimerStartTimes s' = internalTimerStartTimes s"
  by (auto simp: getInProgressTasks_def getInProgressTasks_try_def
      split: prod.splits option.splits sum.splits failure.splits if_splits
      dest!: getApiClient_registry targetTeamId_registry getCurrentUserId_registry
        getCurrentTimeEntryTaskId_registry issue_registry)

lemma getInProgressTasks_distinct:
  assumes "getInProgressTasks cfg R s = (r, s')"
    and "distinct (timer_keys (internalTimerStartTimes s))"
  shows "distinct (timer_keys (internalTimerStartTimes s'))"
proof (cases r)
  case (Inl e)
  with assms getInProgressTasks_failure_registry show ?thesis by metis
next
  case (Inr ts)
  with assms(1) obtain now filtered where
    "reconcile (tracked_in_run cfg R s) now filtered (internalTimerStartTimes s)
       = (ts, internalTimerStartTimes s')"
    using getInProgressTasks_reconciles by blast
  then show ?thesis
    using assms(2) mark_tracked_keys distinct_after_purge
    by (auto simp: reconcile_def Let_def timer_keys_def split: option.splits if_splits)
qed

end
